theory Spec2Isabelle
  imports Complex_Main
begin

section \<open>Data model (eld\_logs/models.py, trips/models.py, routes/models.py)\<close>

text \<open>
  Time is exact: a \<open>datetime\<close> is the number of seconds since midnight of day 0 and a
  \<open>timedelta\<close> a number of seconds, both rational (Python's floats are dyadic rationals;
  rounding to microseconds and time zones are left out, every day has 86400 seconds).
  A \<open>date\<close> is a day number. Hours are rationals as well.
\<close>

type_synonym datetime = rat
type_synonym timedelta = rat
type_synonym date = int

datatype duty_status = off_duty | sleeper_berth | driving | on_duty_not_driving

datatype cycle_type = cycle_70_8 | cycle_60_7

datatype violation_type = drive_11h | duty_14h | cycle_70h | cycle_60h | rest_break | daily_rest

datatype severity = warning | violation | critical

datatype error = RelatedObjectDoesNotExist | ValueError

text \<open>Driver: the primary key and the cycle configuration.\<close>

record driver =
  driver_id :: nat
  cycle_type :: cycle_type

text \<open>RouteCalculation and Trip: the fields the schedule simulator reads.\<close>

record route_calculation =
  estimated_duration_hours :: rat

record trip =
  trip_id :: nat
  trip_driver :: driver
  route :: "route_calculation option"
  planned_start_time :: "datetime option"
  current_location :: string
  pickup_location :: string
  dropoff_location :: string

text \<open>
  ELDLog: one row per driver and date. The foreign key to the driver is held by value,
  the one to the trip by primary key.
\<close>

record eld_log =
  log_id :: nat
  log_driver :: driver
  log_trip :: "nat option"
  log_date :: date
  total_drive_time :: timedelta
  total_duty_time :: timedelta
  total_off_duty_time :: timedelta
  total_sleeper_time :: timedelta
  has_driving_violation :: bool
  has_duty_violation :: bool

text \<open>DutyStatusRecord: one duty-status interval; \<open>end_time = None\<close> is an open interval.\<close>

record duty_status_record =
  rec_id :: nat
  rec_eld_log :: nat
  duty_status :: duty_status
  start_time :: datetime
  end_time :: "datetime option"
  location :: string
  latitude :: "rat option"
  longitude :: "rat option"
  rec_notes :: string
  odometer :: "int option"
  is_automatic :: bool

text \<open>HOSViolation (the formatted description text is left out).\<close>

record hos_violation =
  v_eld_log :: nat
  violation_type :: violation_type
  severity :: severity
  actual_value :: rat
  limit_value :: rat
  violation_time :: datetime

text \<open>
  The database: the three tables in insertion order, and how the backend places NULL
  when a query orders by a column descending (first on PostgreSQL, last on SQLite).
  Primary keys are natural numbers; a new row gets a key larger than every key of its
  table (the source draws a random UUID).
\<close>

record database =
  eld_log_table :: "eld_log list"
  duty_status_record_table :: "duty_status_record list"
  hos_violation_table :: "hos_violation list"
  desc_nulls_first :: bool

section \<open>Query helpers\<close>

text \<open>QuerySet.first() and QuerySet.last(): None on an empty result.\<close>

definition qs_first :: "'a list \<Rightarrow> 'a option" where
  "qs_first xs = (case xs of [] \<Rightarrow> None | x # _ \<Rightarrow> Some x)"

definition qs_last :: "'a list \<Rightarrow> 'a option" where
  "qs_last xs = (if xs = [] then None else Some (last xs))"

text \<open>
  \<open>eld_log.duty_records\<close>: the rows of the log, in the model's default ordering by
  \<open>start_time\<close> (rows with equal start stay in insertion order).
\<close>

definition duty_records :: "database \<Rightarrow> eld_log \<Rightarrow> duty_status_record list" where
  "duty_records db l =
     sort_key start_time (filter (\<lambda>r. rec_eld_log r = log_id l) (duty_status_record_table db))"

text \<open>\<open>order_by('-end_time')\<close>: closed rows by descending end, open rows where the backend puts NULL.\<close>

definition end_or_zero :: "duty_status_record \<Rightarrow> datetime" where
  "end_or_zero r = (case end_time r of None \<Rightarrow> 0 | Some e \<Rightarrow> e)"

definition order_by_end_time_desc :: "bool \<Rightarrow> duty_status_record list \<Rightarrow> duty_status_record list" where
  "order_by_end_time_desc nulls_first rs =
     (let nulls = filter (\<lambda>r. end_time r = None) rs;
          closed = sort_key (\<lambda>r. - end_or_zero r) (filter (\<lambda>r. end_time r \<noteq> None) rs)
      in if nulls_first then nulls @ closed else closed @ nulls)"

text \<open>\<open>filter(duty_status__in=['driving', 'on_duty_not_driving'])\<close>\<close>

definition is_duty :: "duty_status_record \<Rightarrow> bool" where
  "is_duty r = (duty_status r = driving \<or> duty_status r = on_duty_not_driving)"

text \<open>\<open>ELDLog.objects.get(driver=..., log_date=...)\<close>; (driver, log\_date) is unique in the table.\<close>

definition eld_log_get :: "database \<Rightarrow> driver \<Rightarrow> date \<Rightarrow> eld_log option" where
  "eld_log_get db d date =
     qs_first (filter (\<lambda>l. driver_id (log_driver l) = driver_id d \<and> log_date l = date) (eld_log_table db))"

text \<open>\<open>eld_log.save()\<close>: update the row with this primary key, insert it when there is none.\<close>

definition save_eld_log :: "database \<Rightarrow> eld_log \<Rightarrow> database" where
  "save_eld_log db l =
     (if \<exists>x \<in> set (eld_log_table db). log_id x = log_id l
      then db\<lparr>eld_log_table := map (\<lambda>x. if log_id x = log_id l then l else x) (eld_log_table db)\<rparr>
      else db\<lparr>eld_log_table := eld_log_table db @ [l]\<rparr>)"

definition save_duty_status_record :: "database \<Rightarrow> duty_status_record \<Rightarrow> database" where
  "save_duty_status_record db r =
     (if \<exists>x \<in> set (duty_status_record_table db). rec_id x = rec_id r
      then db\<lparr>duty_status_record_table :=
                map (\<lambda>x. if rec_id x = rec_id r then r else x) (duty_status_record_table db)\<rparr>
      else db\<lparr>duty_status_record_table := duty_status_record_table db @ [r]\<rparr>)"

section \<open>DutyStatusRecord.duration (eld\_logs/models.py)\<close>

definition duration :: "duty_status_record \<Rightarrow> timedelta" where
  "duration r = (case end_time r of Some e \<Rightarrow> e - start_time r | None \<Rightarrow> 0)"

section \<open>HOSService (eld\_logs/services.py)\<close>

definition DAILY_DRIVING_LIMIT :: rat where "DAILY_DRIVING_LIMIT = 11"
definition DAILY_DUTY_LIMIT :: rat where "DAILY_DUTY_LIMIT = 14"
definition CYCLE_70_8_LIMIT :: rat where "CYCLE_70_8_LIMIT = 70"
definition CYCLE_60_7_LIMIT :: rat where "CYCLE_60_7_LIMIT = 60"
definition DAILY_OFF_DUTY_MINIMUM :: rat where "DAILY_OFF_DUTY_MINIMUM = 10"
definition BREAK_REQUIREMENT_HOURS :: rat where "BREAK_REQUIREMENT_HOURS = 8"

text \<open>\<open>datetime.date()\<close>, \<open>datetime.combine(date, time(h, 0))\<close>, \<open>timedelta(minutes=m)\<close>.\<close>

definition date_of :: "datetime \<Rightarrow> date" where
  "date_of t = \<lfloor>t / 86400\<rfloor>"

definition combine :: "date \<Rightarrow> rat \<Rightarrow> datetime" where
  "combine d h = of_int d * 86400 + h * 3600"

definition minutes :: "rat \<Rightarrow> timedelta" where
  "minutes m = m * 60"

text \<open>Python's \<open>int(x)\<close> on a float: truncation towards zero.\<close>

definition py_int :: "rat \<Rightarrow> int" where
  "py_int x = (if 0 \<le> x then \<lfloor>x\<rfloor> else \<lceil>x\<rceil>)"

subsection \<open>get\_current\_cycle\_hours\<close>

text \<open>The two nested loops, with \<open>total_hours\<close> as the accumulator.\<close>

definition cycle_record_step :: "duty_status_record \<Rightarrow> rat \<Rightarrow> rat" where
  "cycle_record_step record total_hours =
     (case end_time record of
        Some e \<Rightarrow> total_hours + (e - start_time record) / 3600
      | None \<Rightarrow> total_hours)"

definition cycle_log_step :: "database \<Rightarrow> eld_log \<Rightarrow> rat \<Rightarrow> rat" where
  "cycle_log_step db lg total_hours =
     fold cycle_record_step (filter is_duty (duty_records db lg)) total_hours"

definition get_current_cycle_hours :: "datetime \<Rightarrow> database \<Rightarrow> driver \<Rightarrow> date option \<Rightarrow> rat" where
  "get_current_cycle_hours now db d date_arg =
     (let date = (case date_arg of None \<Rightarrow> date_of now | Some x \<Rightarrow> x);
          days_back = (if cycle_type d = cycle_70_8 then 8 else 7);
          start_date = date - (days_back - 1);
          logs = sort_key (\<lambda>l. - log_date l)
                   (filter (\<lambda>l. driver_id (log_driver l) = driver_id d
                                \<and> start_date \<le> log_date l \<and> log_date l \<le> date)
                           (eld_log_table db))
      in fold (cycle_log_step db) logs 0)"

subsection \<open>The five checks of the violation detector\<close>

text \<open>
  In \_check\_daily\_driving\_limit, \<open>driving_records.last()\<close> is read only when the
  limit is exceeded; a closed driving row exists then, so the query result is not None.
\<close>

definition check_daily_driving_limit :: "datetime \<Rightarrow> database \<Rightarrow> eld_log \<Rightarrow> hos_violation option" where
  "check_daily_driving_limit now db eld_log =
     (let driving_records = filter (\<lambda>r. duty_status r = driving) (duty_records db eld_log);
          total_driving_seconds =
            sum_list (map (\<lambda>record. end_or_zero record - start_time record)
                          (filter (\<lambda>record. end_time record \<noteq> None) driving_records));
          total_driving_hours = total_driving_seconds / 3600
      in if total_driving_hours > DAILY_DRIVING_LIMIT
         then Some \<lparr>v_eld_log = log_id eld_log, violation_type = drive_11h, severity = violation,
                     actual_value = total_driving_hours, limit_value = DAILY_DRIVING_LIMIT,
                     violation_time =
                       (case qs_last driving_records of
                          Some r \<Rightarrow> (case end_time r of Some e \<Rightarrow> e | None \<Rightarrow> now)
                        | None \<Rightarrow> now)\<rparr>
         else None)"

definition check_daily_duty_limit :: "database \<Rightarrow> eld_log \<Rightarrow> hos_violation option" where
  "check_daily_duty_limit db eld_log =
     (let duty_records = filter is_duty (duty_records db eld_log)
      in case (qs_first duty_records, qs_last duty_records) of
           (Some first_duty, Some last_duty) \<Rightarrow>
             (case end_time last_duty of
                Some e \<Rightarrow>
                  (let total_duty_window = e - start_time first_duty;
                       total_duty_hours = total_duty_window / 3600
                   in if total_duty_hours > DAILY_DUTY_LIMIT
                      then Some \<lparr>v_eld_log = log_id eld_log, violation_type = duty_14h,
                                  severity = violation, actual_value = total_duty_hours,
                                  limit_value = DAILY_DUTY_LIMIT, violation_time = e\<rparr>
                      else None)
              | None \<Rightarrow> None)
         | _ \<Rightarrow> None)"

definition check_cycle_limit :: "datetime \<Rightarrow> database \<Rightarrow> eld_log \<Rightarrow> hos_violation option" where
  "check_cycle_limit now db eld_log =
     (let current_cycle_hours =
            get_current_cycle_hours now db (log_driver eld_log) (Some (log_date eld_log));
          (limit, vtype) = (if cycle_type (log_driver eld_log) = cycle_70_8
                            then (CYCLE_70_8_LIMIT, cycle_70h)
                            else (CYCLE_60_7_LIMIT, cycle_60h))
      in if current_cycle_hours > limit
         then Some \<lparr>v_eld_log = log_id eld_log, violation_type = vtype, severity = critical,
                     actual_value = current_cycle_hours, limit_value = limit,
                     violation_time = now\<rparr>
         else None)"

text \<open>
  The loop of \_check\_break\_requirement over the driving records: the state is
  (continuous\_driving, last\_break\_time); the loop returns at the first violation.
\<close>

fun break_loop :: "eld_log \<Rightarrow> duty_status_record list \<Rightarrow> rat \<Rightarrow> datetime option \<Rightarrow> hos_violation option" where
  "break_loop eld_log [] continuous_driving last_break_time = None"
| "break_loop eld_log (record # rest) continuous_driving last_break_time =
     (case end_time record of
        None \<Rightarrow> break_loop eld_log rest continuous_driving last_break_time
      | Some e \<Rightarrow>
          (let continuous_driving =
                 (case last_break_time of
                    Some b \<Rightarrow> if start_time record - b \<ge> minutes 30 then 0 else continuous_driving
                  | None \<Rightarrow> continuous_driving);
               driving_duration = (e - start_time record) / 3600;
               continuous_driving = continuous_driving + driving_duration
           in if continuous_driving > BREAK_REQUIREMENT_HOURS
              then Some \<lparr>v_eld_log = log_id eld_log, violation_type = rest_break,
                          severity = violation, actual_value = continuous_driving,
                          limit_value = BREAK_REQUIREMENT_HOURS, violation_time = e\<rparr>
              else break_loop eld_log rest continuous_driving (Some e)))"

definition check_break_requirement :: "database \<Rightarrow> eld_log \<Rightarrow> hos_violation option" where
  "check_break_requirement db eld_log =
     break_loop eld_log (filter (\<lambda>r. duty_status r = driving) (duty_records db eld_log)) 0 None"

definition check_daily_rest_requirement :: "database \<Rightarrow> eld_log \<Rightarrow> hos_violation option" where
  "check_daily_rest_requirement db eld_log =
     (let previous_date = log_date eld_log - 1
      in case eld_log_get db (log_driver eld_log) previous_date of
           None \<Rightarrow> None
         | Some previous_log \<Rightarrow>
             (let last_duty_previous =
                    qs_first (order_by_end_time_desc (desc_nulls_first db)
                                (filter is_duty (duty_records db previous_log)));
                  first_duty_current = qs_first (filter is_duty (duty_records db eld_log))
              in case (last_duty_previous, first_duty_current) of
                   (Some lp, Some fc) \<Rightarrow>
                     (case end_time lp of
                        Some e \<Rightarrow>
                          (let rest_duration = start_time fc - e;
                               rest_hours = rest_duration / 3600
                           in if rest_hours < DAILY_OFF_DUTY_MINIMUM
                              then Some \<lparr>v_eld_log = log_id eld_log, violation_type = daily_rest,
                                          severity = violation, actual_value = rest_hours,
                                          limit_value = DAILY_OFF_DUTY_MINIMUM,
                                          violation_time = start_time fc\<rparr>
                              else None)
                      | None \<Rightarrow> None)
                 | _ \<Rightarrow> None))"

subsection \<open>check\_hos\_violations\<close>

definition append_if :: "'a list \<Rightarrow> 'a option \<Rightarrow> 'a list" where
  "append_if xs v = (case v of Some x \<Rightarrow> xs @ [x] | None \<Rightarrow> xs)"

text \<open>
  Each check creates its HOSViolation row when it fires; no check reads that table, so
  the rows are inserted here, in the order of the checks.
\<close>

definition check_hos_violations :: "datetime \<Rightarrow> database \<Rightarrow> eld_log \<Rightarrow> database \<times> hos_violation list" where
  "check_hos_violations now db eld_log =
     (let violations = [];
          violations = append_if violations (check_daily_driving_limit now db eld_log);
          violations = append_if violations (check_daily_duty_limit db eld_log);
          violations = append_if violations (check_cycle_limit now db eld_log);
          violations = append_if violations (check_break_requirement db eld_log);
          violations = append_if violations (check_daily_rest_requirement db eld_log)
      in (db\<lparr>hos_violation_table := hos_violation_table db @ violations\<rparr>, violations))"

subsection \<open>\_update\_eld\_log\_totals\<close>

definition totals_step ::
  "duty_status_record \<Rightarrow> timedelta \<times> timedelta \<times> timedelta \<times> timedelta
     \<Rightarrow> timedelta \<times> timedelta \<times> timedelta \<times> timedelta" where
  "totals_step record acc =
     (case acc of (total_drive, total_duty, total_off_duty, total_sleeper) \<Rightarrow>
        (case end_time record of
           Some e \<Rightarrow>
             (let d = e - start_time record
              in if duty_status record = driving
                   then (total_drive + d, total_duty + d, total_off_duty, total_sleeper)
                 else if duty_status record = on_duty_not_driving
                   then (total_drive, total_duty + d, total_off_duty, total_sleeper)
                 else if duty_status record = off_duty
                   then (total_drive, total_duty, total_off_duty + d, total_sleeper)
                 else if duty_status record = sleeper_berth
                   then (total_drive, total_duty, total_off_duty, total_sleeper + d)
                 else acc)
         | None \<Rightarrow> acc))"

definition update_eld_log_totals :: "database \<Rightarrow> eld_log \<Rightarrow> database \<times> eld_log" where
  "update_eld_log_totals db eld_log =
     (let records = duty_records db eld_log;
          (total_drive, total_duty, total_off_duty, total_sleeper) =
             fold totals_step records (0, 0, 0, 0);
          eld_log = eld_log\<lparr>total_drive_time := total_drive, total_duty_time := total_duty,
                             total_off_duty_time := total_off_duty,
                             total_sleeper_time := total_sleeper\<rparr>
      in (save_eld_log db eld_log, eld_log))"

subsection \<open>create\_duty\_status\_record\<close>

text \<open>A primary key no row of the table has (the source draws a random UUID).\<close>

definition new_id :: "nat list \<Rightarrow> nat" where
  "new_id ids = Suc (fold max ids 0)"

definition create_duty_status_record ::
  "datetime \<Rightarrow> database \<Rightarrow> eld_log \<Rightarrow> duty_status \<Rightarrow> datetime \<Rightarrow> string \<Rightarrow> rat option \<Rightarrow> rat option
     \<Rightarrow> string \<Rightarrow> int option \<Rightarrow> database \<times> eld_log \<times> duty_status_record" where
  "create_duty_status_record now db eld_log status start loc lat lng memo odo =
     (let previous_record = qs_last (filter (\<lambda>r. end_time r = None) (duty_records db eld_log));
          db = (case previous_record of
                  Some p \<Rightarrow> save_duty_status_record db (p\<lparr>end_time := Some start\<rparr>)
                | None \<Rightarrow> db);
          record = \<lparr>rec_id = new_id (map rec_id (duty_status_record_table db)),
                    rec_eld_log = log_id eld_log, duty_status = status, start_time = start,
                    end_time = None, location = loc, latitude = lat, longitude = lng,
                    rec_notes = memo, odometer = odo, is_automatic = False\<rparr>;
          db = db\<lparr>duty_status_record_table := duty_status_record_table db @ [record]\<rparr>;
          (db, eld_log) = update_eld_log_totals db eld_log;
          (db, violations) = check_hos_violations now db eld_log;
          (db, eld_log) =
             (if violations \<noteq> []
              then (let eld_log = eld_log\<lparr>
                          has_driving_violation :=
                            list_ex (\<lambda>v. violation_type v = drive_11h) violations,
                          has_duty_violation :=
                            list_ex (\<lambda>v. violation_type v = duty_14h) violations\<rparr>
                    in (save_eld_log db eld_log, eld_log))
              else (db, eld_log))
      in (db, eld_log, record))"

subsection \<open>The trip schedule simulator\<close>

definition add_duty_record ::
  "database \<Rightarrow> eld_log \<Rightarrow> duty_status \<Rightarrow> datetime \<Rightarrow> rat \<Rightarrow> string \<Rightarrow> string \<Rightarrow> database \<times> datetime" where
  "add_duty_record db eld_log status start duration_minutes memo loc =
     (let finish = start + minutes duration_minutes;
          record = \<lparr>rec_id = new_id (map rec_id (duty_status_record_table db)),
                    rec_eld_log = log_id eld_log, duty_status = status, start_time = start,
                    end_time = Some finish, location = loc, latitude = None, longitude = None,
                    rec_notes = memo, odometer = None, is_automatic = True\<rparr>
      in (db\<lparr>duty_status_record_table := duty_status_record_table db @ [record]\<rparr>, finish))"

text \<open>
  \_generate\_daily\_duty\_records, its two nested blocks first: the body of the inner
  \<open>if remaining_hours > 0\<close> (meal break, second driving block, dropoff) and the body of the
  outer one (pickup, first driving block, then the inner block).
\<close>

definition meal_break_block ::
  "database \<Rightarrow> eld_log \<Rightarrow> trip \<Rightarrow> nat \<Rightarrow> rat \<Rightarrow> datetime \<Rightarrow> rat \<Rightarrow> database \<times> datetime" where
  "meal_break_block db eld_log trip day_number total_trip_hours current_time remaining_hours =
     (let (db, current_time) =
             add_duty_record db eld_log off_duty current_time 30 ''Meal break'' ''Rest area'';
          is_final_day = (int day_number = py_int (total_trip_hours / 11));
          max_additional_driving = min 3 (remaining_hours - (if is_final_day then 1 else 0));
          (db, current_time) =
             (if max_additional_driving > 0
              then add_duty_record db eld_log driving current_time
                     (max_additional_driving * 60) ''Driving'' ''En route''
              else (db, current_time))
      in if is_final_day
         then add_duty_record db eld_log on_duty_not_driving current_time 60
                ''Dropoff operations'' (dropoff_location trip)
         else (db, current_time))"

definition driving_periods_block ::
  "database \<Rightarrow> eld_log \<Rightarrow> trip \<Rightarrow> nat \<Rightarrow> rat \<Rightarrow> datetime \<Rightarrow> rat \<Rightarrow> database \<times> datetime" where
  "driving_periods_block db eld_log trip day_number total_trip_hours current_time remaining_hours =
     (let (db, current_time, remaining_hours) =
             (if day_number = 0 then
                (let (db, current_time) =
                        add_duty_record db eld_log on_duty_not_driving current_time 60
                          ''Pickup operations'' (pickup_location trip)
                 in (db, current_time, remaining_hours - 1))
              else (db, current_time, remaining_hours));
          max_driving = (if day_number > 0 then 8 else 7);
          driving_time = min max_driving remaining_hours;
          (db, current_time) =
             add_duty_record db eld_log driving current_time (driving_time * 60)
               ''Driving'' ''En route'';
          remaining_hours = remaining_hours - driving_time
      in if remaining_hours > 0
         then meal_break_block db eld_log trip day_number total_trip_hours current_time
                remaining_hours
         else (db, current_time))"

definition generate_daily_duty_records :: "database \<Rightarrow> eld_log \<Rightarrow> trip \<Rightarrow> nat \<Rightarrow> rat \<Rightarrow> database" where
  "generate_daily_duty_records db eld_log trip day_number total_trip_hours =
     (let start = combine (log_date eld_log) 6;
          current_time = start;
          (db, current_time) =
             add_duty_record db eld_log on_duty_not_driving current_time 15
               ''Pre-trip inspection'' (current_location trip);
          remaining_hours = min 11 (total_trip_hours - (of_nat day_number * 11));
          (db, current_time) =
             (if remaining_hours > 0
              then driving_periods_block db eld_log trip day_number total_trip_hours
                     current_time remaining_hours
              else (db, current_time));
          (db, current_time) =
             add_duty_record db eld_log on_duty_not_driving current_time 15
               ''Post-trip inspection'' (dropoff_location trip);
          end_of_day = combine (log_date eld_log + 1) 0
      in if current_time < end_of_day
         then fst (add_duty_record db eld_log off_duty current_time
                     ((end_of_day - current_time) / 60) ''Off duty rest'' ''Truck stop'')
         else db)"

text \<open>\<open>ELDLog.objects.get_or_create(driver=..., log_date=..., defaults={'trip': trip, ...})\<close>\<close>

definition get_or_create_eld_log :: "database \<Rightarrow> trip \<Rightarrow> date \<Rightarrow> database \<times> eld_log \<times> bool" where
  "get_or_create_eld_log db trip date =
     (case eld_log_get db (trip_driver trip) date of
        Some l \<Rightarrow> (db, l, False)
      | None \<Rightarrow>
          (let l = \<lparr>log_id = new_id (map log_id (eld_log_table db)),
                    log_driver = trip_driver trip, log_trip = Some (trip_id trip),
                    log_date = date, total_drive_time = 0, total_duty_time = 0,
                    total_off_duty_time = 0, total_sleeper_time = 0,
                    has_driving_violation = False, has_duty_violation = False\<rparr>
           in (db\<lparr>eld_log_table := eld_log_table db @ [l]\<rparr>, l, True)))"

text \<open>One iteration of the loop over \<open>range(days_needed)\<close>; the state is the database and \<open>logs\<close>.\<close>

definition trip_day_step ::
  "trip \<Rightarrow> date \<Rightarrow> rat \<Rightarrow> nat \<Rightarrow> database \<times> eld_log list \<Rightarrow> database \<times> eld_log list" where
  "trip_day_step trip start_date total_hours day st =
     (case st of (db, logs) \<Rightarrow>
        (let date = start_date + int day;
             (db, eld_log, created) = get_or_create_eld_log db trip date;
             (db, eld_log) =
                (if \<not> created \<and> log_trip eld_log \<noteq> Some (trip_id trip)
                 then (let eld_log = eld_log\<lparr>log_trip := Some (trip_id trip)\<rparr>
                       in (save_eld_log db eld_log, eld_log))
                 else (db, eld_log));
             db = (if created
                   then generate_daily_duty_records db eld_log trip day total_hours
                   else db)
         in (db, logs @ [eld_log])))"

text \<open>
  Reading \<open>trip.route\<close> on a trip without a route raises RelatedObjectDoesNotExist; a
  route object is never falsy, so the ValueError of the source is not reached.
\<close>

definition generate_trip_eld_logs :: "datetime \<Rightarrow> database \<Rightarrow> trip \<Rightarrow> error + (database \<times> eld_log list)" where
  "generate_trip_eld_logs now db trip =
     (case route trip of
        None \<Rightarrow> Inl RelatedObjectDoesNotExist
      | Some rt \<Rightarrow>
          (let total_hours = estimated_duration_hours rt;
               driving_hours_per_day = 11;
               days_needed = max 1 (py_int (total_hours / driving_hours_per_day) + 1);
               start_date = (case planned_start_time trip of
                               Some t \<Rightarrow> date_of t | None \<Rightarrow> date_of now)
           in Inr (fold (trip_day_step trip start_date total_hours) [0..<nat days_needed]
                        (db, []))))"

section \<open>Specification-level notions\<close>

text \<open>
  The quantities the properties are stated with, each computed from the tables alone and
  independently of the service code.
\<close>

subsection \<open>Totals and the cycle window\<close>

text \<open>
  \<open>closed_time\<close>: the time a log spent in the statuses selected by \<open>P\<close>, recomputed
  from the closed rows of the record table; \<open>duty_hours\<close>: the driving and on-duty
  hours of a log; \<open>log_on\<close>: the driver's log of a day; \<open>cycle_window\<close>: 8 days for
  the 70/8 cycle, 7 otherwise; \<open>unique_driver_date\<close>: the table's uniqueness constraint.
\<close>

definition closed_time :: "database \<Rightarrow> eld_log \<Rightarrow> (duty_status \<Rightarrow> bool) \<Rightarrow> timedelta" where
  "closed_time db l P =
     sum_list (map duration
       (filter (\<lambda>r. rec_eld_log r = log_id l \<and> end_time r \<noteq> None \<and> P (duty_status r))
               (duty_status_record_table db)))"

definition duty_hours :: "database \<Rightarrow> eld_log \<Rightarrow> rat" where
  "duty_hours db l = closed_time db l (\<lambda>s. s = driving \<or> s = on_duty_not_driving) / 3600"

definition log_on :: "database \<Rightarrow> driver \<Rightarrow> date \<Rightarrow> eld_log option" where
  "log_on db d day =
     find (\<lambda>l. driver_id (log_driver l) = driver_id d \<and> log_date l = day) (eld_log_table db)"

definition cycle_window :: "driver \<Rightarrow> int" where
  "cycle_window d = (if cycle_type d = cycle_70_8 then 8 else 7)"

definition unique_driver_date :: "database \<Rightarrow> bool" where
  "unique_driver_date db =
     distinct (map (\<lambda>l. (driver_id (log_driver l), log_date l)) (eld_log_table db))"

subsection \<open>The rest between two duty days\<close>

text \<open>
  \<open>first_duty_start\<close> is the earliest start among the driving and on-duty rows of a
  log. \<open>last_duty_end\<close> is the latest end among the closed ones of the previous day; it
  is undefined when there is none, and also when an open one exists and the backend sorts
  NULL first (the query then returns the open row). The gap is their difference in hours.
\<close>

definition previous_day :: "eld_log \<Rightarrow> eld_log \<Rightarrow> bool" where
  "previous_day l p =
     (driver_id (log_driver p) = driver_id (log_driver l) \<and> log_date p = log_date l - 1)"

definition duty_rows :: "database \<Rightarrow> eld_log \<Rightarrow> duty_status_record list" where
  "duty_rows db l =
     filter (\<lambda>r. rec_eld_log r = log_id l \<and> is_duty r) (duty_status_record_table db)"

definition first_duty_start :: "database \<Rightarrow> eld_log \<Rightarrow> datetime option" where
  "first_duty_start db l =
     (if duty_rows db l = [] then None else Some (Min (set (map start_time (duty_rows db l)))))"

definition last_duty_end :: "database \<Rightarrow> eld_log \<Rightarrow> datetime option" where
  "last_duty_end db p =
     (let closed = filter (\<lambda>r. end_time r \<noteq> None) (duty_rows db p)
      in if closed = [] \<or> (desc_nulls_first db \<and> list_ex (\<lambda>r. end_time r = None) (duty_rows db p))
         then None
         else Some (Max (set (map end_or_zero closed))))"

definition rest_gap_hours :: "database \<Rightarrow> eld_log \<Rightarrow> eld_log \<Rightarrow> rat option" where
  "rest_gap_hours db p l =
     (case (last_duty_end db p, first_duty_start db l) of
        (Some e, Some s) \<Rightarrow> Some ((s - e) / 3600)
      | _ \<Rightarrow> None)"

subsection \<open>Intervals of a log\<close>

text \<open>
  \<open>open_count\<close>: the number of open rows of a log; \<open>new_rows\<close>: the rows an operation
  appended; \<open>chained\<close>: each row ends where the next starts; \<open>non_overlapping\<close>: no
  two rows share a stretch of time; \<open>day_timeline\<close>: a log's rows as (status, start,
  end) in hours since midnight of the log's date.
\<close>

definition open_count :: "database \<Rightarrow> nat \<Rightarrow> nat" where
  "open_count db lid =
     length (filter (\<lambda>r. rec_eld_log r = lid \<and> end_time r = None) (duty_status_record_table db))"

definition new_rows :: "database \<Rightarrow> database \<Rightarrow> duty_status_record list" where
  "new_rows db db' = drop (length (duty_status_record_table db)) (duty_status_record_table db')"

fun chained :: "duty_status_record list \<Rightarrow> bool" where
  "chained [] = True"
| "chained [r] = True"
| "chained (r # r' # rs) = (end_time r = Some (start_time r') \<and> chained (r' # rs))"

definition overlaps :: "duty_status_record \<Rightarrow> duty_status_record \<Rightarrow> bool" where
  "overlaps a b = (max (start_time a) (start_time b) < min (end_or_zero a) (end_or_zero b))"

fun non_overlapping :: "duty_status_record list \<Rightarrow> bool" where
  "non_overlapping [] = True"
| "non_overlapping (r # rs) = (list_all (\<lambda>x. \<not> overlaps r x) rs \<and> non_overlapping rs)"

definition day_timeline :: "database \<Rightarrow> eld_log \<Rightarrow> (duty_status \<times> rat \<times> rat option) list" where
  "day_timeline db l =
     map (\<lambda>r. (duty_status r, (start_time r - combine (log_date l) 0) / 3600,
                map_option (\<lambda>e. (e - combine (log_date l) 0) / 3600) (end_time r)))
         (duty_records db l)"

subsection \<open>Trips\<close>

text \<open>
  \<open>no_prior_logs\<close>: the driver has no log in the table; \<open>records_reference_logs\<close>:
  every record row belongs to a log of the table (the foreign key);
  \<open>generated_db\<close> and \<open>generated_logs\<close>: the two results of generate\_trip\_eld\_logs.
\<close>

definition no_prior_logs :: "database \<Rightarrow> driver \<Rightarrow> bool" where
  "no_prior_logs db d = list_all (\<lambda>l. driver_id (log_driver l) \<noteq> driver_id d) (eld_log_table db)"

definition records_reference_logs :: "database \<Rightarrow> bool" where
  "records_reference_logs db =
     list_all (\<lambda>r. list_ex (\<lambda>l. log_id l = rec_eld_log r) (eld_log_table db))
       (duty_status_record_table db)"

definition generated_db :: "datetime \<Rightarrow> database \<Rightarrow> trip \<Rightarrow> database" where
  "generated_db now db t =
     (case generate_trip_eld_logs now db t of Inr (db', logs) \<Rightarrow> db' | Inl e \<Rightarrow> db)"

definition generated_logs :: "datetime \<Rightarrow> database \<Rightarrow> trip \<Rightarrow> eld_log list" where
  "generated_logs now db t =
     (case generate_trip_eld_logs now db t of Inr (db', logs) \<Rightarrow> logs | Inl e \<Rightarrow> [])"

section \<open>Auxiliary definitions for the proofs\<close>

subsection \<open>The stages of create\_duty\_status\_record\<close>

definition close_previous :: "database \<Rightarrow> eld_log \<Rightarrow> datetime \<Rightarrow> database" where
  "close_previous db l start =
     (case qs_last (filter (\<lambda>r. end_time r = None) (duty_records db l)) of
        Some p \<Rightarrow> save_duty_status_record db (p\<lparr>end_time := Some start\<rparr>)
      | None \<Rightarrow> db)"

text \<open>
  \<open>previous_record\<close>: the row the mutator closes,
  \<open>eld_log.duty_records.filter(end_time__isnull=True).last()\<close>.
\<close>

definition previous_record :: "database \<Rightarrow> eld_log \<Rightarrow> duty_status_record option" where
  "previous_record db l = qs_last (filter (\<lambda>r. end_time r = None) (duty_records db l))"

definition appended :: "database \<Rightarrow> duty_status_record \<Rightarrow> database" where
  "appended db r = db\<lparr>duty_status_record_table := duty_status_record_table db @ [r]\<rparr>"

definition new_record ::
  "database \<Rightarrow> eld_log \<Rightarrow> duty_status \<Rightarrow> datetime \<Rightarrow> string \<Rightarrow> rat option \<Rightarrow> rat option \<Rightarrow> string
     \<Rightarrow> int option \<Rightarrow> duty_status_record" where
  "new_record db l status start loc lat lng memo odo =
     \<lparr>rec_id = new_id (map rec_id (duty_status_record_table db)),
      rec_eld_log = log_id l, duty_status = status, start_time = start,
      end_time = None, location = loc, latitude = lat, longitude = lng,
      rec_notes = memo, odometer = odo, is_automatic = False\<rparr>"

definition set_flags :: "eld_log \<Rightarrow> hos_violation list \<Rightarrow> eld_log" where
  "set_flags l vs =
     (if vs \<noteq> []
      then l\<lparr>has_driving_violation := list_ex (\<lambda>v. violation_type v = drive_11h) vs,
             has_duty_violation := list_ex (\<lambda>v. violation_type v = duty_14h) vs\<rparr>
      else l)"

definition option_list :: "'a option \<Rightarrow> 'a list" where
  "option_list v = (case v of None \<Rightarrow> [] | Some x \<Rightarrow> [x])"

subsection \<open>Plans: the simulator's day as a list of steps\<close>

text \<open>
  A plan step is (status, minutes, notes, location). The plans below follow the blocks of
  \_generate\_daily\_duty\_records without the database; the lemmas of the simulator
  section show that the blocks insert exactly the rows of their plan.
\<close>

type_synonym plan_step = "duty_status \<times> rat \<times> string \<times> string"

definition add_db :: "database \<Rightarrow> eld_log \<Rightarrow> duty_status \<Rightarrow> datetime \<Rightarrow> rat \<Rightarrow> string \<Rightarrow> string \<Rightarrow> database" where
  "add_db db l s st m n loc = fst (add_duty_record db l s st m n loc)"

fun add_all :: "database \<Rightarrow> eld_log \<Rightarrow> datetime \<Rightarrow> plan_step list \<Rightarrow> database \<times> datetime" where
  "add_all db l st [] = (db, st)"
| "add_all db l st ((s, m, n, loc) # ps) = add_all (add_db db l s st m n loc) l (st + minutes m) ps"

definition meal_break_plan :: "trip \<Rightarrow> nat \<Rightarrow> rat \<Rightarrow> rat \<Rightarrow> plan_step list" where
  "meal_break_plan t day_number total_trip_hours remaining_hours =
     (let is_final_day = (int day_number = py_int (total_trip_hours / 11));
          max_additional_driving = min 3 (remaining_hours - (if is_final_day then 1 else 0))
      in [(off_duty, 30, ''Meal break'', ''Rest area'')]
         @ (if max_additional_driving > 0
            then [(driving, max_additional_driving * 60, ''Driving'', ''En route'')] else [])
         @ (if is_final_day
            then [(on_duty_not_driving, 60, ''Dropoff operations'', dropoff_location t)]
            else []))"

definition driving_periods_plan :: "trip \<Rightarrow> nat \<Rightarrow> rat \<Rightarrow> rat \<Rightarrow> plan_step list" where
  "driving_periods_plan t day_number total_trip_hours remaining_hours =
     (let remaining1 = (if day_number = 0 then remaining_hours - 1 else remaining_hours);
          driving_time = min (if day_number > 0 then 8 else 7) remaining1;
          remaining2 = remaining1 - driving_time
      in (if day_number = 0
          then [(on_duty_not_driving, 60, ''Pickup operations'', pickup_location t)] else [])
         @ [(driving, driving_time * 60, ''Driving'', ''En route'')]
         @ (if remaining2 > 0 then meal_break_plan t day_number total_trip_hours remaining2
            else []))"

definition day_plan :: "trip \<Rightarrow> nat \<Rightarrow> rat \<Rightarrow> plan_step list" where
  "day_plan t day_number total_trip_hours =
     (let remaining_hours = min 11 (total_trip_hours - (of_nat day_number * 11))
      in [(on_duty_not_driving, 15, ''Pre-trip inspection'', current_location t)]
         @ (if remaining_hours > 0
            then driving_periods_plan t day_number total_trip_hours remaining_hours else [])
         @ [(on_duty_not_driving, 15, ''Post-trip inspection'', dropoff_location t)])"

definition auto_row :: "nat \<Rightarrow> eld_log \<Rightarrow> duty_status \<Rightarrow> datetime \<Rightarrow> rat \<Rightarrow> string \<Rightarrow> string \<Rightarrow> duty_status_record" where
  "auto_row i l s st m n loc =
     \<lparr>rec_id = i, rec_eld_log = log_id l, duty_status = s, start_time = st,
      end_time = Some (st + minutes m), location = loc, latitude = None, longitude = None,
      rec_notes = n, odometer = None, is_automatic = True\<rparr>"

fun plan_rows :: "nat list \<Rightarrow> eld_log \<Rightarrow> datetime \<Rightarrow> plan_step list \<Rightarrow> duty_status_record list" where
  "plan_rows ids l st [] = []"
| "plan_rows ids l st ((s, m, n, loc) # ps) =
     auto_row (new_id ids) l s st m n loc # plan_rows (ids @ [new_id ids]) l (st + minutes m) ps"

fun plan_rows_from :: "nat \<Rightarrow> eld_log \<Rightarrow> datetime \<Rightarrow> plan_step list \<Rightarrow> duty_status_record list" where
  "plan_rows_from i l st [] = []"
| "plan_rows_from i l st ((s, m, n, loc) # ps) =
     auto_row i l s st m n loc # plan_rows_from (Suc i) l (st + minutes m) ps"

fun plan_end :: "datetime \<Rightarrow> plan_step list \<Rightarrow> datetime" where
  "plan_end st [] = st"
| "plan_end st ((s, m, n, loc) # ps) = plan_end (st + minutes m) ps"

definition plan_minutes :: "plan_step list \<Rightarrow> rat" where
  "plan_minutes ps = sum_list (map (\<lambda>p. fst (snd p)) ps)"

definition full_plan :: "trip \<Rightarrow> nat \<Rightarrow> rat \<Rightarrow> date \<Rightarrow> plan_step list" where
  "full_plan t day h d =
     (let ct = plan_end (combine d 6) (day_plan t day h);
          end_of_day = combine (d + 1) 0
      in day_plan t day h
         @ (if ct < end_of_day
            then [(off_duty, (end_of_day - ct) / 60, ''Off duty rest'', ''Truck stop'')]
            else []))"

definition day_rows :: "nat \<Rightarrow> eld_log \<Rightarrow> trip \<Rightarrow> nat \<Rightarrow> rat \<Rightarrow> date \<Rightarrow> duty_status_record list" where
  "day_rows i l t day h d = plan_rows_from i l (combine d 6) (full_plan t day h d)"

subsection \<open>The loop over the days of a trip\<close>

definition new_log :: "database \<Rightarrow> trip \<Rightarrow> date \<Rightarrow> eld_log" where
  "new_log db t date =
     \<lparr>log_id = new_id (map log_id (eld_log_table db)),
      log_driver = trip_driver t, log_trip = Some (trip_id t),
      log_date = date, total_drive_time = 0, total_duty_time = 0,
      total_off_duty_time = 0, total_sleeper_time = 0,
      has_driving_violation = False, has_duty_violation = False\<rparr>"

definition start_date :: "datetime \<Rightarrow> trip \<Rightarrow> date" where
  "start_date now t = (case planned_start_time t of Some x \<Rightarrow> date_of x | None \<Rightarrow> date_of now)"

definition trip_result :: "datetime \<Rightarrow> database \<Rightarrow> trip \<Rightarrow> rat \<Rightarrow> database \<times> eld_log list" where
  "trip_result now db t h =
     fold (trip_day_step t (start_date now t) h) [0..<nat (max 1 (py_int (h / 11) + 1))] (db, [])"

definition with_log :: "database \<Rightarrow> eld_log \<Rightarrow> database" where
  "with_log db l = db\<lparr>eld_log_table := eld_log_table db @ [l]\<rparr>"

definition day_view :: "database \<Rightarrow> eld_log \<Rightarrow> duty_status_record list \<Rightarrow> bool" where
  "day_view D l R =
     (\<forall>P. filter (\<lambda>r. rec_eld_log r = log_id l \<and> P r) (duty_status_record_table D) = filter P R)"

section \<open>Concrete inputs\<close>

definition empty_db :: database where
  "empty_db = \<lparr>eld_log_table = [], duty_status_record_table = [], hos_violation_table = [],
               desc_nulls_first = False\<rparr>"

definition example_driver :: driver where
  "example_driver = \<lparr>driver_id = 1, cycle_type = cycle_70_8\<rparr>"

definition example_log :: "nat \<Rightarrow> date \<Rightarrow> eld_log" where
  "example_log i d =
     \<lparr>log_id = i, log_driver = example_driver, log_trip = None, log_date = d,
      total_drive_time = 0, total_duty_time = 0, total_off_duty_time = 0,
      total_sleeper_time = 0, has_driving_violation = False, has_duty_violation = False\<rparr>"

text \<open>A manually entered interval of log \<open>lg\<close>, its bounds given in hours.\<close>

definition interval :: "nat \<Rightarrow> nat \<Rightarrow> duty_status \<Rightarrow> rat \<Rightarrow> rat option \<Rightarrow> duty_status_record" where
  "interval i lg s a b =
     \<lparr>rec_id = i, rec_eld_log = lg, duty_status = s, start_time = a * 3600,
      end_time = map_option (\<lambda>x. x * 3600) b, location = [], latitude = None,
      longitude = None, rec_notes = [], odometer = None, is_automatic = False\<rparr>"

definition example_db :: "eld_log list \<Rightarrow> duty_status_record list \<Rightarrow> database" where
  "example_db ls rs =
     \<lparr>eld_log_table = ls, duty_status_record_table = rs, hos_violation_table = [],
      desc_nulls_first = False\<rparr>"

definition example_trip :: "rat \<Rightarrow> trip" where
  "example_trip h =
     \<lparr>trip_id = 1, trip_driver = example_driver,
      route = Some \<lparr>estimated_duration_hours = h\<rparr>, planned_start_time = Some 0,
      current_location = ''Depot'', pickup_location = ''Shipper'',
      dropoff_location = ''Receiver''\<rparr>"

definition mutation_example :: "database \<times> eld_log \<times> duty_status_record" where
  "mutation_example =
     create_duty_status_record 0 (example_db [example_log 0 0] [interval 0 0 driving 8 None])
       (example_log 0 0) off_duty 36000 [] None None [] None"

definition out_of_order_example :: "database \<times> eld_log \<times> duty_status_record" where
  "out_of_order_example =
     create_duty_status_record 0 (example_db [example_log 0 0] [interval 0 0 driving 8 None])
       (example_log 0 0) off_duty 21600 [] None None [] None"

text \<open>
  Two logs; log 0 has two open intervals (from 09:00 and from 08:00), log 1 has one (from
  07:00). The append on log 0 starts at 06:00.
\<close>

definition two_open_example :: database where
  "two_open_example =
     example_db [example_log 0 0, example_log 1 1]
       [interval 0 0 driving 9 None, interval 1 1 driving 7 None, interval 2 0 off_duty 8 None]"

definition append_example :: "database \<times> eld_log \<times> duty_status_record" where
  "append_example =
     create_duty_status_record 0 two_open_example (example_log 0 0) on_duty_not_driving 21600
       [] None None [] None"

definition drive_limit_example :: database where
  "drive_limit_example =
     example_db [example_log 0 0]
       [interval 0 0 driving 6 (Some 14), interval 1 0 off_duty 14 (Some (29/2)),
        interval 2 0 driving (29/2) (Some 18)]"

definition daily_rest_example :: database where
  "daily_rest_example =
     example_db [example_log 0 0, example_log 1 1]
       [interval 0 0 driving 13 (Some 21), interval 1 0 off_duty 21 (Some 29),
        interval 2 1 driving 29 (Some 33)]"

definition cycle_example :: database where
  "cycle_example =
     example_db [example_log 0 (-1), example_log 1 0, example_log 2 7]
       [interval 0 0 driving (-18) (Some (-8)),
        interval 1 1 driving 6 (Some 14), interval 2 1 on_duty_not_driving 14 (Some 15),
        interval 3 1 off_duty 15 (Some 17),
        interval 4 2 on_duty_not_driving 174 (Some 176), interval 5 2 driving 176 None]"

definition example_day :: "rat \<Rightarrow> nat \<Rightarrow> duty_status_record list" where
  "example_day h day =
     new_rows empty_db
       (generate_daily_duty_records empty_db (example_log 0 (int day)) (example_trip h) day h)"

section \<open>Sums over record lists\<close>

lemma sum_list_map_insort_key:
  "sum_list (map f (insort_key k x xs)) = f x + sum_list (map f xs)"
  for f :: "'a \<Rightarrow> rat"
  by (induction xs) (simp_all add: algebra_simps)

lemma sum_list_map_sort_key:
  "sum_list (map f (sort_key k xs)) = sum_list (map f xs)"
  for f :: "'a \<Rightarrow> rat"
  by (induction xs) (simp_all add: sum_list_map_insort_key)

lemma filter_records_sorted:
  "filter P (duty_records db l) =
     sort_key start_time
       (filter (\<lambda>r. rec_eld_log r = log_id l \<and> P r) (duty_status_record_table db))"
  by (simp add: duty_records_def filter_sort conj_commute)

section \<open>The duration property\<close>

text \<open>
  C10. An open record (null \<open>end_time\<close>) has duration zero, a closed one has duration
  \<open>end_time - start_time\<close>; so a total of durations over any list of records is the
  total over its closed records: open intervals contribute exactly 0.
\<close>

theorem duration_open_closed:
  "(end_time r = None \<longrightarrow> duration r = 0)
   \<and> (\<forall>e. end_time r = Some e \<longrightarrow> duration r = e - start_time r)
   \<and> sum_list (map duration rs) = sum_list (map duration (filter (\<lambda>x. end_time x \<noteq> None) rs))"
proof -
  have "sum_list (map duration rs) = sum_list (map duration (filter (\<lambda>x. end_time x \<noteq> None) rs))"
    by (induction rs) (auto simp: duration_def)
  then show ?thesis by (simp add: duration_def)
qed

theorem duration_open_closed_witness:
  "end_time (interval 0 0 driving 8 None) = None
   \<and> duration (interval 0 0 driving 8 None) = 0
   \<and> end_time (interval 1 0 driving 8 (Some 10)) = Some 36000
   \<and> duration (interval 1 0 driving 8 (Some 10)) = 7200
   \<and> sum_list (map duration [interval 0 0 driving 8 None, interval 1 0 driving 8 (Some 10)]) = 7200"
  using duration_open_closed [of "interval 0 0 driving 8 None"
          "[interval 0 0 driving 8 None, interval 1 0 driving 8 (Some 10)]"]
        duration_open_closed [of "interval 1 0 driving 8 (Some 10)" "[]"]
  by (simp add: interval_def duration_def)

section \<open>The cached totals of a log\<close>

lemma totals_step_eq:
  "totals_step r (a, b, c, d) =
     (a + (if end_time r \<noteq> None \<and> duty_status r = driving then duration r else 0),
      b + (if end_time r \<noteq> None \<and> is_duty r then duration r else 0),
      c + (if end_time r \<noteq> None \<and> duty_status r = off_duty then duration r else 0),
      d + (if end_time r \<noteq> None \<and> duty_status r = sleeper_berth then duration r else 0))"
  by (cases "end_time r"; cases "duty_status r")
     (simp_all add: totals_step_def duration_def is_duty_def Let_def)

lemma fold_totals_step:
  "fold totals_step rs (a, b, c, d) =
     (a + sum_list (map duration (filter (\<lambda>r. end_time r \<noteq> None \<and> duty_status r = driving) rs)),
      b + sum_list (map duration (filter (\<lambda>r. end_time r \<noteq> None \<and> is_duty r) rs)),
      c + sum_list (map duration (filter (\<lambda>r. end_time r \<noteq> None \<and> duty_status r = off_duty) rs)),
      d + sum_list (map duration (filter (\<lambda>r. end_time r \<noteq> None \<and> duty_status r = sleeper_berth) rs)))"
proof (induction rs arbitrary: a b c d)
  case Nil
  show ?case by simp
next
  case (Cons r rs)
  show ?case
    unfolding fold_simps totals_step_eq Cons.IH by (simp add: add.assoc)
qed

lemma table_save_eld_log [simp]:
  "duty_status_record_table (save_eld_log db l) = duty_status_record_table db"
  by (simp add: save_eld_log_def)

lemma table_check_hos_violations [simp]:
  "duty_status_record_table (fst (check_hos_violations now db l)) = duty_status_record_table db"
  by (simp add: check_hos_violations_def Let_def)

lemma eld_log_table_check [simp]:
  "eld_log_table (fst (check_hos_violations now db l)) = eld_log_table db"
  by (simp add: check_hos_violations_def Let_def)

lemma totals_of_update:
  "snd (update_eld_log_totals db l) =
     l\<lparr>total_drive_time := closed_time db l (\<lambda>s. s = driving),
       total_duty_time := closed_time db l (\<lambda>s. s = driving \<or> s = on_duty_not_driving),
       total_off_duty_time := closed_time db l (\<lambda>s. s = off_duty),
       total_sleeper_time := closed_time db l (\<lambda>s. s = sleeper_berth)\<rparr>"
  unfolding update_eld_log_totals_def Let_def fold_totals_step filter_records_sorted
    sum_list_map_sort_key closed_time_def is_duty_def
  by simp

lemma closed_time_cong:
  "duty_status_record_table db = duty_status_record_table db' \<Longrightarrow> log_id l = log_id l' \<Longrightarrow>
   closed_time db l P = closed_time db' l' P"
  by (simp add: closed_time_def)

lemma fst_update_eld_log_totals:
  "fst (update_eld_log_totals db l) = save_eld_log db (snd (update_eld_log_totals db l))"
  by (simp add: update_eld_log_totals_def Let_def split: prod.splits)

lemma log_id_update_eld_log_totals [simp]:
  "log_id (snd (update_eld_log_totals db l)) = log_id l"
  by (simp add: totals_of_update)

lemma save_eld_log_rows:
  "l \<in> set (eld_log_table (save_eld_log db l)) \<and>
   (\<forall>x \<in> set (eld_log_table (save_eld_log db l)). log_id x = log_id l \<longrightarrow> x = l)"
  by (auto simp: save_eld_log_def)

lemma create_duty_status_record_eq:
  "create_duty_status_record now db l status start loc lat lng memo odo =
     (let db1 = close_previous db l start;
          rcd = new_record db1 l status start loc lat lng memo odo;
          db2 = appended db1 rcd;
          l3 = snd (update_eld_log_totals db2 l);
          db3 = save_eld_log db2 l3;
          vs = snd (check_hos_violations now db3 l3);
          db4 = fst (check_hos_violations now db3 l3);
          l5 = set_flags l3 vs
      in (if vs \<noteq> [] then save_eld_log db4 l5 else db4, l5, rcd))"
  by (simp add: create_duty_status_record_def Let_def close_previous_def new_record_def
        appended_def set_flags_def fst_update_eld_log_totals case_prod_beta)

lemma table_create_duty_status_record:
  "duty_status_record_table (fst (create_duty_status_record now db l status start loc lat lng memo odo))
     = duty_status_record_table (close_previous db l start)
       @ [new_record (close_previous db l start) l status start loc lat lng memo odo]"
  by (simp add: create_duty_status_record_eq Let_def appended_def)

text \<open>
  C5. After a mutation through create\_duty\_status\_record the four cached totals of the
  log equal the sums recomputed from the closed rows of the record table (drive: driving;
  duty: driving and on\_duty\_not\_driving; off duty; sleeper berth), open rows counting
  nothing; and the stored row of the log is the returned one.
\<close>

theorem create_duty_status_record_totals:
  "case create_duty_status_record now db eld_log status start loc lat lng memo odo of
     (db', eld_log', rcd) \<Rightarrow>
        total_drive_time eld_log' = closed_time db' eld_log' (\<lambda>s. s = driving)
      \<and> total_duty_time eld_log' =
          closed_time db' eld_log' (\<lambda>s. s = driving \<or> s = on_duty_not_driving)
      \<and> total_off_duty_time eld_log' = closed_time db' eld_log' (\<lambda>s. s = off_duty)
      \<and> total_sleeper_time eld_log' = closed_time db' eld_log' (\<lambda>s. s = sleeper_berth)
      \<and> log_id eld_log' = log_id eld_log
      \<and> eld_log' \<in> set (eld_log_table db')
      \<and> (\<forall>x \<in> set (eld_log_table db'). log_id x = log_id eld_log \<longrightarrow> x = eld_log')"
proof -
  define db1 where "db1 = close_previous db eld_log start"
  define rcd where "rcd = new_record db1 eld_log status start loc lat lng memo odo"
  define db2 where "db2 = appended db1 rcd"
  define l3 where "l3 = snd (update_eld_log_totals db2 eld_log)"
  define db3 where "db3 = save_eld_log db2 l3"
  define vs where "vs = snd (check_hos_violations now db3 l3)"
  define db4 where "db4 = fst (check_hos_violations now db3 l3)"
  define l5 where "l5 = set_flags l3 vs"
  define db5 where "db5 = (if vs \<noteq> [] then save_eld_log db4 l5 else db4)"
  have res: "create_duty_status_record now db eld_log status start loc lat lng memo odo
               = (db5, l5, rcd)"
    by (simp add: create_duty_status_record_eq db1_def rcd_def db2_def l3_def db3_def
          vs_def db4_def l5_def db5_def Let_def)
  have id3: "log_id l3 = log_id eld_log" by (simp add: l3_def)
  have id5: "log_id l5 = log_id eld_log" by (simp add: l5_def set_flags_def id3)
  have tbl: "duty_status_record_table db5 = duty_status_record_table db2"
    by (simp add: db5_def db4_def db3_def)
  have ct: "closed_time db5 l5 P = closed_time db2 eld_log P" for P
    by (rule closed_time_cong [OF tbl id5])
  have t3: "total_drive_time l3 = closed_time db2 eld_log (\<lambda>s. s = driving)"
           "total_duty_time l3 = closed_time db2 eld_log (\<lambda>s. s = driving \<or> s = on_duty_not_driving)"
           "total_off_duty_time l3 = closed_time db2 eld_log (\<lambda>s. s = off_duty)"
           "total_sleeper_time l3 = closed_time db2 eld_log (\<lambda>s. s = sleeper_berth)"
    by (simp_all add: l3_def totals_of_update)
  have t5: "total_drive_time l5 = total_drive_time l3" "total_duty_time l5 = total_duty_time l3"
           "total_off_duty_time l5 = total_off_duty_time l3"
           "total_sleeper_time l5 = total_sleeper_time l3"
    by (simp_all add: l5_def set_flags_def)
  have rows4: "l3 \<in> set (eld_log_table db4) \<and>
               (\<forall>x \<in> set (eld_log_table db4). log_id x = log_id l3 \<longrightarrow> x = l3)"
    unfolding db4_def eld_log_table_check db3_def by (rule save_eld_log_rows)
  have rows5: "l5 \<in> set (eld_log_table db5) \<and>
               (\<forall>x \<in> set (eld_log_table db5). log_id x = log_id l5 \<longrightarrow> x = l5)"
  proof (cases "vs = []")
    case True
    then have "l5 = l3" "db5 = db4" by (simp_all add: l5_def set_flags_def db5_def)
    with rows4 show ?thesis by simp
  next
    case False
    then have "db5 = save_eld_log db4 l5" by (simp add: db5_def)
    then show ?thesis using save_eld_log_rows [of l5 db4] by simp
  qed
  show ?thesis
    unfolding res using rows5 by (simp add: ct t5 t3 id5)
qed

lemmas model_defs =
  create_duty_status_record_def update_eld_log_totals_def check_hos_violations_def
  check_daily_driving_limit_def check_daily_duty_limit_def check_cycle_limit_def
  check_break_requirement_def check_daily_rest_requirement_def get_current_cycle_hours_def
  cycle_log_step_def cycle_record_step_def totals_step_def duty_records_def
  save_eld_log_def save_duty_status_record_def qs_first_def qs_last_def eld_log_get_def
  order_by_end_time_desc_def is_duty_def end_or_zero_def append_if_def new_id_def
  DAILY_DRIVING_LIMIT_def DAILY_DUTY_LIMIT_def CYCLE_70_8_LIMIT_def CYCLE_60_7_LIMIT_def
  DAILY_OFF_DUTY_MINIMUM_def BREAK_REQUIREMENT_HOURS_def minutes_def

lemmas example_defs =
  example_db_def example_log_def interval_def example_driver_def empty_db_def example_trip_def

text \<open>Witness for C5: closing an open driving interval of two hours.\<close>

theorem create_duty_status_record_totals_witness:
  "total_drive_time (fst (snd mutation_example)) = 7200
   \<and> closed_time (fst mutation_example) (fst (snd mutation_example)) (\<lambda>s. s = driving) = 7200
   \<and> total_duty_time (fst (snd mutation_example)) = 7200
   \<and> total_off_duty_time (fst (snd mutation_example)) = 0
   \<and> total_sleeper_time (fst (snd mutation_example)) = 0
   \<and> fst (snd mutation_example) \<in> set (eld_log_table (fst mutation_example))
   \<and> filter (\<lambda>x. log_id x = log_id (example_log 0 0)) (eld_log_table (fst mutation_example))
       = [fst (snd mutation_example)]"
  using create_duty_status_record_totals [where now = 0
          and db = "example_db [example_log 0 0] [interval 0 0 driving 8 None]"
          and eld_log = "example_log 0 0" and status = off_duty and start = 36000
          and loc = "[]" and lat = None and lng = None and memo = "[]" and odo = None]
  by (simp add: mutation_example_def model_defs example_defs closed_time_def duration_def Let_def)

section \<open>Out-of-order appends\<close>

text \<open>
  C1 as stated fails: on a log whose only interval starts at 08:00, an append with start
  06:00 is carried out. The open interval is closed at 06:00 and the new row is inserted.
\<close>

theorem create_duty_status_record_out_of_order_counterexample:
  "map (\<lambda>r. (start_time r, end_time r))
       (duty_status_record_table (example_db [example_log 0 0] [interval 0 0 driving 8 None]))
     = [(28800, None)]
   \<and> (21600 :: rat) < 28800
   \<and> map (\<lambda>r. (start_time r, end_time r)) (duty_status_record_table (fst out_of_order_example))
     = [(28800, Some 21600), (21600, None)]
   \<and> start_time (snd (snd out_of_order_example)) = 21600"
  by (simp add: out_of_order_example_def model_defs example_defs Let_def)

lemma qs_last_in_set: "qs_last xs = Some x \<Longrightarrow> x \<in> set xs"
  by (auto simp: qs_last_def split: if_splits)

lemma qs_first_in_set: "qs_first xs = Some x \<Longrightarrow> x \<in> set xs"
  by (auto simp: qs_first_def split: list.splits)

lemma set_duty_records:
  "set (duty_records db l) = {r \<in> set (duty_status_record_table db). rec_eld_log r = log_id l}"
  by (auto simp: duty_records_def)

lemma table_save_existing:
  "p \<in> set (duty_status_record_table db) \<Longrightarrow> rec_id p' = rec_id p \<Longrightarrow>
   duty_status_record_table (save_duty_status_record db p')
     = map (\<lambda>x. if rec_id x = rec_id p then p' else x) (duty_status_record_table db)"
  by (auto simp: save_duty_status_record_def)

lemma table_close_previous:
  "duty_status_record_table (close_previous db l start) =
     (case qs_last (filter (\<lambda>r. end_time r = None) (duty_records db l)) of
        Some p \<Rightarrow> map (\<lambda>x. if rec_id x = rec_id p then p\<lparr>end_time := Some start\<rparr> else x)
                     (duty_status_record_table db)
      | None \<Rightarrow> duty_status_record_table db)"
proof (cases "qs_last (filter (\<lambda>r. end_time r = None) (duty_records db l))")
  case None
  then show ?thesis by (simp add: close_previous_def)
next
  case (Some p)
  then have "p \<in> set (duty_status_record_table db)"
    using qs_last_in_set [OF Some] by (simp add: set_duty_records)
  then show ?thesis
    using Some by (simp add: close_previous_def table_save_existing [of p])
qed

lemma length_close_previous:
  "length (duty_status_record_table (close_previous db l start))
     = length (duty_status_record_table db)"
  by (simp add: table_close_previous split: option.splits)

lemma previous_record_None:
  "previous_record db l = None \<Longrightarrow> open_count db (log_id l) = 0"
  by (auto simp: previous_record_def qs_last_def open_count_def set_duty_records
        filter_empty_conv split: if_splits)

lemma sorted_le_last:
  fixes xs :: "('a :: linorder) list"
  shows "sorted xs \<Longrightarrow> x \<in> set xs \<Longrightarrow> x \<le> last xs"
  by (induction xs) auto

lemma previous_record_Some:
  assumes "previous_record db l = Some p"
  shows "p \<in> set (duty_status_record_table db)" "rec_eld_log p = log_id l" "end_time p = None"
    "list_all (\<lambda>r. start_time r \<le> start_time p)
       (filter (\<lambda>r. rec_eld_log r = log_id l \<and> end_time r = None) (duty_status_record_table db))"
proof -
  let ?ys = "filter (\<lambda>r. end_time r = None) (duty_records db l)"
  have ne: "?ys \<noteq> []" and p: "p = last ?ys"
    using assms by (auto simp: previous_record_def qs_last_def split: if_splits)
  have mem: "p \<in> set ?ys" unfolding p by (rule last_in_set [OF ne])
  then show "p \<in> set (duty_status_record_table db)" "rec_eld_log p = log_id l" "end_time p = None"
    by (simp_all add: set_duty_records)
  have srt: "sorted (map start_time ?ys)"
    unfolding duty_records_def by (rule sorted_filter) simp
  have "start_time r \<le> start_time p" if "r \<in> set ?ys" for r
  proof -
    have "start_time r \<in> set (map start_time ?ys)" using that by simp
    then have "start_time r \<le> last (map start_time ?ys)" by (rule sorted_le_last [OF srt])
    then show ?thesis using ne p by (simp add: last_map)
  qed
  then show "list_all (\<lambda>r. start_time r \<le> start_time p)
       (filter (\<lambda>r. rec_eld_log r = log_id l \<and> end_time r = None) (duty_status_record_table db))"
    by (simp add: list_all_iff set_duty_records)
qed

lemma table_close_previous_record:
  "duty_status_record_table (close_previous db l start) =
     (case previous_record db l of
        Some p \<Rightarrow> map (\<lambda>x. if rec_id x = rec_id p then p\<lparr>end_time := Some start\<rparr> else x)
                     (duty_status_record_table db)
      | None \<Rightarrow> duty_status_record_table db)"
  unfolding previous_record_def by (rule table_close_previous)

text \<open>
  C1, amended. create\_duty\_status\_record has no ordering check and never rejects an
  append. For every log and every start time, also one before the start of the log's last
  interval, it returns, and the record table changes in exactly two ways.

  \<^item> One row is inserted at the end: the returned record, which is open, belongs to the log
    and carries the given status and start.

  \<^item> If the log has an open row, the one that comes last in the order by start
    (\<open>previous_record\<close>, an open row of the log with the greatest start) is closed at
    the new start: the row with its primary key now ends at \<open>start\<close>. Every other row,
    of this log or another, is as before. If the log has no open row, every row is as before.
\<close>

theorem create_duty_status_record_always_appends:
  "case create_duty_status_record now db eld_log status start loc lat lng memo odo of
     (db', eld_log', rcd) \<Rightarrow>
        length (duty_status_record_table db') = Suc (length (duty_status_record_table db))
      \<and> last (duty_status_record_table db') = rcd
      \<and> rec_eld_log rcd = log_id eld_log
      \<and> duty_status rcd = status
      \<and> start_time rcd = start
      \<and> end_time rcd = None
      \<and> (case previous_record db eld_log of
            None \<Rightarrow>
              open_count db (log_id eld_log) = 0
            \<and> butlast (duty_status_record_table db') = duty_status_record_table db
          | Some p \<Rightarrow>
              p \<in> set (duty_status_record_table db)
            \<and> rec_eld_log p = log_id eld_log
            \<and> end_time p = None
            \<and> list_all (\<lambda>r. start_time r \<le> start_time p)
                 (filter (\<lambda>r. rec_eld_log r = log_id eld_log \<and> end_time r = None)
                    (duty_status_record_table db))
            \<and> p\<lparr>end_time := Some start\<rparr> \<in> set (duty_status_record_table db')
            \<and> butlast (duty_status_record_table db')
                = map (\<lambda>x. if rec_id x = rec_id p then p\<lparr>end_time := Some start\<rparr> else x)
                      (duty_status_record_table db))"
proof -
  define res where "res = create_duty_status_record now db eld_log status start loc lat lng memo odo"
  have tbl: "duty_status_record_table (fst res)
      = duty_status_record_table (close_previous db eld_log start) @ [snd (snd res)]"
    unfolding res_def
    by (simp add: table_create_duty_status_record) (simp add: create_duty_status_record_eq Let_def)
  have rcd: "snd (snd res)
      = new_record (close_previous db eld_log start) eld_log status start loc lat lng memo odo"
    unfolding res_def by (simp add: create_duty_status_record_eq Let_def)
  have row: "length (duty_status_record_table (fst res)) = Suc (length (duty_status_record_table db))
      \<and> last (duty_status_record_table (fst res)) = snd (snd res)
      \<and> rec_eld_log (snd (snd res)) = log_id eld_log
      \<and> duty_status (snd (snd res)) = status
      \<and> start_time (snd (snd res)) = start
      \<and> end_time (snd (snd res)) = None"
    by (simp add: tbl length_close_previous) (simp add: rcd new_record_def)
  have rest: "butlast (duty_status_record_table (fst res))
      = duty_status_record_table (close_previous db eld_log start)"
    by (simp add: tbl)
  have prev: "case previous_record db eld_log of
            None \<Rightarrow>
              open_count db (log_id eld_log) = 0
            \<and> butlast (duty_status_record_table (fst res)) = duty_status_record_table db
          | Some p \<Rightarrow>
              p \<in> set (duty_status_record_table db)
            \<and> rec_eld_log p = log_id eld_log
            \<and> end_time p = None
            \<and> list_all (\<lambda>r. start_time r \<le> start_time p)
                 (filter (\<lambda>r. rec_eld_log r = log_id eld_log \<and> end_time r = None)
                    (duty_status_record_table db))
            \<and> p\<lparr>end_time := Some start\<rparr> \<in> set (duty_status_record_table (fst res))
            \<and> butlast (duty_status_record_table (fst res))
                = map (\<lambda>x. if rec_id x = rec_id p then p\<lparr>end_time := Some start\<rparr> else x)
                      (duty_status_record_table db)"
  proof (cases "previous_record db eld_log")
    case None
    then show ?thesis
      using previous_record_None [OF None] by (simp add: rest table_close_previous_record)
  next
    case (Some p)
    have eq: "duty_status_record_table (close_previous db eld_log start)
                = map (\<lambda>x. if rec_id x = rec_id p then p\<lparr>end_time := Some start\<rparr> else x)
                      (duty_status_record_table db)"
      by (simp add: table_close_previous_record Some)
    have "p\<lparr>end_time := Some start\<rparr> \<in> set (duty_status_record_table (close_previous db eld_log start))"
      unfolding eq using previous_record_Some(1) [OF Some]
      by (auto simp: image_iff intro!: bexI [where x = p])
    then have "p\<lparr>end_time := Some start\<rparr> \<in> set (duty_status_record_table (fst res))"
      by (simp add: tbl)
    then show ?thesis
      using previous_record_Some [OF Some] by (simp add: Some rest eq)
  qed
  show ?thesis
    using row prev unfolding res_def by (simp add: case_prod_beta)
qed

text \<open>
  Witness for C1: log 0 has open rows from 09:00 and from 08:00, log 1 one from 07:00. The
  append on log 0 at 06:00 closes the row from 09:00 at 06:00, leaves the two others open and
  inserts the new row.
\<close>

theorem create_duty_status_record_always_appends_witness:
  "previous_record two_open_example (example_log 0 0) = Some (interval 0 0 driving 9 None)
   \<and> map (\<lambda>r. (rec_id r, rec_eld_log r, start_time r, end_time r))
         (duty_status_record_table two_open_example)
       = [(0, 0, 32400, None), (1, 1, 25200, None), (2, 0, 28800, None)]
   \<and> map (\<lambda>r. (rec_id r, rec_eld_log r, start_time r, end_time r))
         (duty_status_record_table (fst append_example))
       = [(0, 0, 32400, Some 21600), (1, 1, 25200, None), (2, 0, 28800, None), (3, 0, 21600, None)]
   \<and> snd (snd append_example) = last (duty_status_record_table (fst append_example))
   \<and> duty_status (snd (snd append_example)) = on_duty_not_driving"
  using create_duty_status_record_always_appends [where now = 0 and db = two_open_example
          and eld_log = "example_log 0 0" and status = on_duty_not_driving and start = 21600
          and loc = "[]" and lat = None and lng = None and memo = "[]" and odo = None]
  by (simp add: append_example_def two_open_example_def previous_record_def model_defs
        example_defs Let_def)

section \<open>The violation detector\<close>

lemma append_if_option_list: "append_if xs v = xs @ option_list v"
  by (simp add: append_if_def option_list_def split: option.splits)

lemma violations_eq:
  "snd (check_hos_violations now db l) =
     option_list (check_daily_driving_limit now db l) @ option_list (check_daily_duty_limit db l)
     @ option_list (check_cycle_limit now db l) @ option_list (check_break_requirement db l)
     @ option_list (check_daily_rest_requirement db l)"
  by (simp add: check_hos_violations_def Let_def append_if_option_list)

lemma type_daily_driving:
  "check_daily_driving_limit now db l = Some v \<Longrightarrow> violation_type v = drive_11h"
  by (auto simp: check_daily_driving_limit_def Let_def split: if_splits)

lemma type_daily_duty:
  "check_daily_duty_limit db l = Some v \<Longrightarrow> violation_type v = duty_14h"
  by (auto simp: check_daily_duty_limit_def Let_def split: if_splits option.splits)

lemma type_cycle:
  "check_cycle_limit now db l = Some v \<Longrightarrow> violation_type v = cycle_70h \<or> violation_type v = cycle_60h"
  by (auto simp: check_cycle_limit_def Let_def split: if_splits)

lemma type_break_loop:
  "break_loop l rs c b = Some v \<Longrightarrow> violation_type v = rest_break"
  by (induction rs arbitrary: c b) (auto simp: Let_def split: option.splits if_splits)

lemma type_break:
  "check_break_requirement db l = Some v \<Longrightarrow> violation_type v = rest_break"
  by (auto simp: check_break_requirement_def dest: type_break_loop)

lemma type_daily_rest:
  "check_daily_rest_requirement db l = Some v \<Longrightarrow> violation_type v = daily_rest"
  by (auto simp: check_daily_rest_requirement_def Let_def split: if_splits option.splits)

lemma filter_option_list_other:
  "(\<And>v. c = Some v \<Longrightarrow> violation_type v \<noteq> t) \<Longrightarrow>
   filter (\<lambda>v. violation_type v = t) (option_list c) = []"
  by (cases c) (simp_all add: option_list_def)

lemma filter_option_list_same:
  "(\<And>v. c = Some v \<Longrightarrow> violation_type v = t) \<Longrightarrow>
   filter (\<lambda>v. violation_type v = t) (option_list c) = option_list c"
  by (cases c) (simp_all add: option_list_def)

lemma drive_11h_violations:
  "filter (\<lambda>v. violation_type v = drive_11h) (snd (check_hos_violations now db l))
     = option_list (check_daily_driving_limit now db l)"
proof -
  have "filter (\<lambda>v. violation_type v = drive_11h) (option_list (check_daily_driving_limit now db l))
          = option_list (check_daily_driving_limit now db l)"
    by (rule filter_option_list_same) (rule type_daily_driving)
  moreover have "filter (\<lambda>v. violation_type v = drive_11h) (option_list (check_daily_duty_limit db l)) = []"
    by (rule filter_option_list_other) (auto dest: type_daily_duty)
  moreover have "filter (\<lambda>v. violation_type v = drive_11h) (option_list (check_cycle_limit now db l)) = []"
    by (rule filter_option_list_other) (auto dest: type_cycle)
  moreover have "filter (\<lambda>v. violation_type v = drive_11h) (option_list (check_break_requirement db l)) = []"
    by (rule filter_option_list_other) (auto dest: type_break)
  moreover have "filter (\<lambda>v. violation_type v = drive_11h) (option_list (check_daily_rest_requirement db l)) = []"
    by (rule filter_option_list_other) (auto dest: type_daily_rest)
  ultimately show ?thesis by (simp add: violations_eq)
qed

lemma daily_rest_violations:
  "filter (\<lambda>v. violation_type v = daily_rest) (snd (check_hos_violations now db l))
     = option_list (check_daily_rest_requirement db l)"
proof -
  have "filter (\<lambda>v. violation_type v = daily_rest) (option_list (check_daily_rest_requirement db l))
          = option_list (check_daily_rest_requirement db l)"
    by (rule filter_option_list_same) (rule type_daily_rest)
  moreover have "filter (\<lambda>v. violation_type v = daily_rest) (option_list (check_daily_duty_limit db l)) = []"
    by (rule filter_option_list_other) (auto dest: type_daily_duty)
  moreover have "filter (\<lambda>v. violation_type v = daily_rest) (option_list (check_cycle_limit now db l)) = []"
    by (rule filter_option_list_other) (auto dest: type_cycle)
  moreover have "filter (\<lambda>v. violation_type v = daily_rest) (option_list (check_break_requirement db l)) = []"
    by (rule filter_option_list_other) (auto dest: type_break)
  moreover have "filter (\<lambda>v. violation_type v = daily_rest) (option_list (check_daily_driving_limit now db l)) = []"
    by (rule filter_option_list_other) (auto dest: type_daily_driving)
  ultimately show ?thesis by (simp add: violations_eq)
qed

lemma closed_duration: "end_time r \<noteq> None \<Longrightarrow> end_or_zero r - start_time r = duration r"
  by (auto simp: end_or_zero_def duration_def)

lemma driving_seconds:
  "sum_list (map (\<lambda>r. end_or_zero r - start_time r)
       (filter (\<lambda>r. end_time r \<noteq> None) (filter (\<lambda>r. duty_status r = driving) (duty_records db l))))
     = closed_time db l (\<lambda>s. s = driving)"
proof -
  let ?sel = "\<lambda>r. rec_eld_log r = log_id l \<and> end_time r \<noteq> None \<and> duty_status r = driving"
  have sel: "filter (\<lambda>r. end_time r \<noteq> None) (filter (\<lambda>r. duty_status r = driving) (duty_records db l))
          = sort_key start_time (filter ?sel (duty_status_record_table db))"
    by (simp add: duty_records_def filter_sort conj_ac)
  have "sum_list (map (\<lambda>r. end_or_zero r - start_time r) (filter ?sel (duty_status_record_table db)))
          = sum_list (map duration (filter ?sel (duty_status_record_table db)))"
    by (rule arg_cong [where f = sum_list], rule map_cong) (auto simp: closed_duration)
  then show ?thesis
    unfolding sel sum_list_map_sort_key closed_time_def .
qed

text \<open>
  C7. The detector reports a drive\_11h violation exactly when the closed driving
  intervals of the log sum to more than 11 hours; it is then the only drive\_11h
  violation of the run and carries that sum in hours as actual value and 11 as limit.
\<close>

theorem detector_drive_11h:
  "let total_hours = closed_time db l (\<lambda>s. s = driving) / 3600;
       found = filter (\<lambda>v. violation_type v = drive_11h) (snd (check_hos_violations now db l))
   in if total_hours > 11
      then \<exists>v. found = [v] \<and> actual_value v = total_hours \<and> limit_value v = 11
               \<and> v_eld_log v = log_id l \<and> severity v = violation
      else found = []"
  unfolding drive_11h_violations check_daily_driving_limit_def Let_def driving_seconds
  by (simp add: option_list_def DAILY_DRIVING_LIMIT_def)

lemma hd_sort_key_least:
  assumes "xs \<noteq> []"
  shows "hd (sort_key k xs) \<in> set xs \<and> (\<forall>y \<in> set xs. k (hd (sort_key k xs)) \<le> k y)"
proof -
  obtain a as where ys: "sort_key k xs = a # as"
    using assms by (cases "sort_key k xs") (auto dest: arg_cong [where f = length])
  have "sorted (map k (a # as))" unfolding ys [symmetric] by (rule sorted_sort_key)
  then have le: "\<forall>y \<in> set (a # as). k a \<le> k y" by auto
  have "set (a # as) = set xs" unfolding ys [symmetric] by simp
  with le show ?thesis unfolding ys by auto
qed

lemma hd_sort_key_Min:
  fixes k :: "'a \<Rightarrow> rat"
  assumes "xs \<noteq> []"
  shows "k (hd (sort_key k xs)) = Min (set (map k xs))"
proof -
  have "Min (k ` set xs) = k (hd (sort_key k xs))"
    using hd_sort_key_least [OF assms, of k] by (intro Min_eqI) auto
  then show ?thesis by simp
qed

lemma hd_sort_key_neg_Max:
  fixes e :: "'a \<Rightarrow> rat"
  assumes "xs \<noteq> []"
  shows "e (hd (sort_key (\<lambda>r. - e r) xs)) = Max (set (map e xs))"
proof -
  have "Max (e ` set xs) = e (hd (sort_key (\<lambda>r. - e r) xs))"
    using hd_sort_key_least [OF assms, of "\<lambda>r. - e r"] by (intro Max_eqI) auto
  then show ?thesis by simp
qed

lemma qs_first_eq: "qs_first xs = (if xs = [] then None else Some (hd xs))"
  by (cases xs) (simp_all add: qs_first_def)

lemma sort_key_eq_Nil [simp]: "sort_key k xs = [] \<longleftrightarrow> xs = []"
  by (auto dest: arg_cong [where f = length])

lemma duty_of_records: "filter is_duty (duty_records db l) = sort_key start_time (duty_rows db l)"
  by (simp add: filter_records_sorted duty_rows_def)

lemma first_duty_current:
  "map_option start_time (qs_first (filter is_duty (duty_records db l))) = first_duty_start db l"
  by (simp add: duty_of_records qs_first_eq first_duty_start_def hd_sort_key_Min)

lemma closed_end: "end_time r \<noteq> None \<Longrightarrow> end_time r = Some (end_or_zero r)"
  by (auto simp: end_or_zero_def)

lemma last_duty_previous:
  "(case qs_first (order_by_end_time_desc (desc_nulls_first db) (filter is_duty (duty_records db p))) of
      None \<Rightarrow> None | Some lp \<Rightarrow> end_time lp) = last_duty_end db p"
proof -
  let ?S = "sort_key start_time (duty_rows db p)"
  let ?nulls = "filter (\<lambda>r. end_time r = None) ?S"
  let ?cl = "filter (\<lambda>r. end_time r \<noteq> None) ?S"
  let ?closed = "sort_key (\<lambda>r. - end_or_zero r) ?cl"
  let ?rows = "filter (\<lambda>r. end_time r \<noteq> None) (duty_rows db p)"
  have ord: "order_by_end_time_desc nf (filter is_duty (duty_records db p))
               = (if nf then ?nulls @ ?closed else ?closed @ ?nulls)" for nf
    by (simp add: order_by_end_time_desc_def Let_def duty_of_records)
  have cl_set: "set ?cl = set ?rows" by auto
  have cl_nil: "?cl = [] \<longleftrightarrow> ?rows = []"
    using cl_set by (metis set_empty)
  have nulls_nil: "?nulls = [] \<longleftrightarrow> \<not> list_ex (\<lambda>r. end_time r = None) (duty_rows db p)"
    by (auto simp: filter_empty_conv list_ex_iff)
  have hd_nulls: "end_time (hd ?nulls) = None" if "?nulls \<noteq> []"
  proof -
    have "hd ?nulls \<in> set ?nulls" using that by (rule hd_in_set)
    then show ?thesis by simp
  qed
  have hd_closed: "end_time (hd ?closed) = Some (Max (set (map end_or_zero ?rows)))" if "?cl \<noteq> []"
  proof -
    have "hd ?closed \<in> set ?cl"
      using hd_sort_key_least [OF that, of "\<lambda>r. - end_or_zero r"] by blast
    then have "end_time (hd ?closed) \<noteq> None" by simp
    then have "end_time (hd ?closed) = Some (end_or_zero (hd ?closed))" by (rule closed_end)
    also have "end_or_zero (hd ?closed) = Max (set (map end_or_zero ?cl))"
      by (rule hd_sort_key_neg_Max [OF that])
    also have "set (map end_or_zero ?cl) = set (map end_or_zero ?rows)"
      using cl_set by simp
    finally show ?thesis .
  qed
  show ?thesis
  proof (cases "?cl = []")
    case True
    then have rows: "?rows = []" using cl_nil by simp
    show ?thesis
      using True hd_nulls rows
      by (cases "?nulls = []") (simp_all add: ord qs_first_eq last_duty_end_def Let_def)
  next
    case False
    then have rows: "?rows \<noteq> []" using cl_nil by simp
    show ?thesis
    proof (cases "desc_nulls_first db \<and> ?nulls \<noteq> []")
      case True
      then show ?thesis
        using hd_nulls nulls_nil
        by (simp add: ord qs_first_eq last_duty_end_def Let_def)
    next
      case no: False
      then show ?thesis
        using False rows hd_closed nulls_nil
        by (auto simp: ord qs_first_eq last_duty_end_def Let_def)
    qed
  qed
qed

lemma filter_unique_key:
  "distinct (map k xs) \<Longrightarrow> p \<in> set xs \<Longrightarrow> filter (\<lambda>x. k x = k p) xs = [p]"
proof (induction xs)
  case Nil
  then show ?case by simp
next
  case (Cons x xs)
  show ?case
  proof (cases "x = p")
    case True
    have "filter (\<lambda>y. k y = k p) xs = []"
      using Cons.prems(1) True by (force simp: filter_empty_conv image_iff)
    then show ?thesis using True by simp
  next
    case False
    then have "p \<in> set xs" using Cons.prems(2) by simp
    moreover have "k x \<noteq> k p" using Cons.prems(1) \<open>p \<in> set xs\<close> by auto
    ultimately show ?thesis using Cons by simp
  qed
qed

lemma eld_log_get_previous:
  assumes "unique_driver_date db" "p \<in> set (eld_log_table db)" "previous_day l p"
  shows "eld_log_get db (log_driver l) (log_date l - 1) = Some p"
proof -
  let ?k = "\<lambda>x. (driver_id (log_driver x), log_date x)"
  have "filter (\<lambda>x. ?k x = ?k p) (eld_log_table db) = [p]"
    using assms(1,2) unfolding unique_driver_date_def by (rule filter_unique_key)
  moreover have "?k p = (driver_id (log_driver l), log_date l - 1)"
    using assms(3) by (simp add: previous_day_def)
  ultimately show ?thesis by (simp add: eld_log_get_def qs_first_def)
qed

lemma eld_log_get_no_previous:
  assumes "\<forall>p \<in> set (eld_log_table db). \<not> previous_day l p"
  shows "eld_log_get db (log_driver l) (log_date l - 1) = None"
proof -
  have "filter (\<lambda>x. driver_id (log_driver x) = driver_id (log_driver l) \<and> log_date x = log_date l - 1)
          (eld_log_table db) = []"
    using assms by (auto simp: filter_empty_conv previous_day_def)
  then show ?thesis by (simp add: eld_log_get_def qs_first_def)
qed

lemma check_daily_rest_previous:
  assumes "eld_log_get db (log_driver l) (log_date l - 1) = Some p"
  shows "case rest_gap_hours db p l of
           Some g \<Rightarrow>
             if g < 10
             then \<exists>v. check_daily_rest_requirement db l = Some v \<and> actual_value v = g
                      \<and> limit_value v = 10 \<and> v_eld_log v = log_id l \<and> severity v = violation
             else check_daily_rest_requirement db l = None
         | None \<Rightarrow> check_daily_rest_requirement db l = None"
proof -
  let ?lp = "qs_first (order_by_end_time_desc (desc_nulls_first db) (filter is_duty (duty_records db p)))"
  let ?fc = "qs_first (filter is_duty (duty_records db l))"
  have lp: "(case ?lp of None \<Rightarrow> None | Some x \<Rightarrow> end_time x) = last_duty_end db p"
    by (rule last_duty_previous)
  have fc: "map_option start_time ?fc = first_duty_start db l"
    by (rule first_duty_current)
  show ?thesis
  proof (cases ?lp)
    case None
    then have "last_duty_end db p = None" using lp by simp
    then show ?thesis
      using None assms by (simp add: rest_gap_hours_def check_daily_rest_requirement_def Let_def)
  next
    case (Some x)
    note lpx = this
    show ?thesis
    proof (cases "end_time x")
      case None
      then have "last_duty_end db p = None" using lp lpx by simp
      then show ?thesis
        using None lpx assms
        by (simp add: rest_gap_hours_def check_daily_rest_requirement_def Let_def
              split: option.splits)
    next
      case (Some e)
      then have e: "last_duty_end db p = Some e" using lp lpx by simp
      show ?thesis
      proof (cases ?fc)
        case None
        then have "first_duty_start db l = None" using fc by simp
        then show ?thesis
          using None lpx assms e
          by (simp add: rest_gap_hours_def check_daily_rest_requirement_def Let_def)
      next
        case (Some y)
        then have "first_duty_start db l = Some (start_time y)" using fc by simp
        then show ?thesis
          using Some lpx assms e \<open>end_time x = Some e\<close>
          by (simp add: rest_gap_hours_def check_daily_rest_requirement_def Let_def
                DAILY_OFF_DUTY_MINIMUM_def)
      qed
    qed
  qed
qed

text \<open>
  C8. With at most one log per driver and date: when no log of the previous calendar day
  exists for the driver, the detector reports no daily\_rest violation; when one exists,
  it reports exactly one iff the gap between the end of that day's last driving or
  on-duty interval and the start of the current day's first one is under 10 hours, with
  the gap in hours as actual value.
\<close>

theorem detector_daily_rest:
  assumes "unique_driver_date db"
  shows "let found = filter (\<lambda>v. violation_type v = daily_rest) (snd (check_hos_violations now db l))
         in ((\<forall>p \<in> set (eld_log_table db). \<not> previous_day l p) \<longrightarrow> found = [])
          \<and> (\<forall>p \<in> set (eld_log_table db). previous_day l p \<longrightarrow>
                (case rest_gap_hours db p l of
                   Some g \<Rightarrow>
                     if g < 10
                     then \<exists>v. found = [v] \<and> actual_value v = g \<and> limit_value v = 10
                              \<and> v_eld_log v = log_id l \<and> severity v = violation
                     else found = []
                 | None \<Rightarrow> found = []))"
proof -
  have none: "option_list (check_daily_rest_requirement db l) = []"
    if "\<forall>p \<in> set (eld_log_table db). \<not> previous_day l p"
    using eld_log_get_no_previous [OF that]
    by (simp add: check_daily_rest_requirement_def Let_def option_list_def)
  have some: "case rest_gap_hours db p l of
                Some g \<Rightarrow>
                  if g < 10
                  then \<exists>v. option_list (check_daily_rest_requirement db l) = [v] \<and> actual_value v = g
                           \<and> limit_value v = 10 \<and> v_eld_log v = log_id l \<and> severity v = violation
                  else option_list (check_daily_rest_requirement db l) = []
              | None \<Rightarrow> option_list (check_daily_rest_requirement db l) = []"
    if "p \<in> set (eld_log_table db)" "previous_day l p" for p
    using check_daily_rest_previous [OF eld_log_get_previous [OF assms that]]
    by (auto simp: option_list_def split: option.splits if_splits)
  show ?thesis
    unfolding daily_rest_violations Let_def using none some by blast
qed

text \<open>Witness for C7: driving 06:00--14:00 and 14:30--18:00, 11.5 hours in all.\<close>

theorem detector_drive_11h_witness:
  "closed_time drive_limit_example (example_log 0 0) (\<lambda>s. s = driving) / 3600 = 23 / 2
   \<and> (23 / 2 :: rat) > 11
   \<and> map (\<lambda>v. (violation_type v, actual_value v, limit_value v))
         (snd (check_hos_violations 0 drive_limit_example (example_log 0 0)))
       = [(drive_11h, 23 / 2, 11)]"
  using detector_drive_11h [where db = drive_limit_example and l = "example_log 0 0" and now = 0]
  by (simp add: drive_limit_example_def model_defs example_defs closed_time_def duration_def Let_def)

text \<open>Witness for C8: the previous day ends duty at 21:00, the current day starts at 05:00.\<close>

theorem detector_daily_rest_witness:
  "unique_driver_date daily_rest_example
   \<and> example_log 0 0 \<in> set (eld_log_table daily_rest_example)
   \<and> previous_day (example_log 1 1) (example_log 0 0)
   \<and> rest_gap_hours daily_rest_example (example_log 0 0) (example_log 1 1) = Some 8
   \<and> map (\<lambda>v. (violation_type v, actual_value v, limit_value v))
         (snd (check_hos_violations 0 daily_rest_example (example_log 1 1)))
       = [(daily_rest, 8, 10)]
   \<and> snd (check_hos_violations 0 daily_rest_example (example_log 0 0)) = []"
  using detector_daily_rest [where db = daily_rest_example and l = "example_log 1 1" and now = 0]
  by (simp add: daily_rest_example_def model_defs example_defs unique_driver_date_def previous_day_def
        rest_gap_hours_def last_duty_end_def first_duty_start_def duty_rows_def Let_def)

section \<open>The cycle window calculator\<close>

lemma sum_duration_closed:
  "sum_list (map duration (filter (\<lambda>r. end_time r \<noteq> None) rs)) = sum_list (map duration rs)"
  by (induction rs) (auto simp: duration_def)

lemma cycle_record_step_eq: "cycle_record_step r acc = acc + duration r / 3600"
  by (simp add: cycle_record_step_def duration_def split: option.splits)

lemma fold_cycle_record_step:
  "fold cycle_record_step rs acc = acc + sum_list (map duration rs) / 3600"
  by (induction rs arbitrary: acc) (simp_all add: cycle_record_step_eq add_divide_distrib)

lemma cycle_log_step_eq: "cycle_log_step db l acc = acc + duty_hours db l"
proof -
  let ?sel = "\<lambda>r. rec_eld_log r = log_id l \<and> end_time r \<noteq> None
                  \<and> (duty_status r = driving \<or> duty_status r = on_duty_not_driving)"
  have "filter ?sel (duty_status_record_table db) = filter (\<lambda>r. end_time r \<noteq> None) (duty_rows db l)"
    unfolding duty_rows_def filter_filter is_duty_def by (rule filter_cong) auto
  then have "closed_time db l (\<lambda>s. s = driving \<or> s = on_duty_not_driving)
               = sum_list (map duration (duty_rows db l))"
    unfolding closed_time_def by (simp only: sum_duration_closed)
  then show ?thesis
    unfolding cycle_log_step_def fold_cycle_record_step duty_of_records sum_list_map_sort_key
      duty_hours_def by simp
qed

lemma fold_cycle_log_step:
  "fold (cycle_log_step db) ls acc = acc + sum_list (map (duty_hours db) ls)"
  by (induction ls arbitrary: acc) (simp_all add: cycle_log_step_eq)

lemma sum_list_upto_delta:
  "sum_list (map (\<lambda>day. if day = c then v else 0) [lo..hi]) = (if lo \<le> c \<and> c \<le> hi then v else 0)"
  for v :: rat
proof -
  have "sum_list (map (\<lambda>day. if day = c then v else 0) [lo..hi])
          = sum (\<lambda>day. if day = c then v else 0) (set [lo..hi])"
    by (rule sum_list_distinct_conv_sum_set) simp
  also have "\<dots> = (if c \<in> {lo..hi} then v else 0)"
    by (simp add: sum.delta)
  finally show ?thesis by simp
qed

lemma sum_window_logs:
  fixes f :: "eld_log \<Rightarrow> rat"
  assumes "distinct (map (\<lambda>l. (driver_id (log_driver l), log_date l)) tbl)"
  shows "sum_list (map f (filter (\<lambda>l. driver_id (log_driver l) = i \<and> lo \<le> log_date l \<and> log_date l \<le> hi) tbl))
       = sum_list (map (\<lambda>day. case find (\<lambda>l. driver_id (log_driver l) = i \<and> log_date l = day) tbl of
                                  None \<Rightarrow> 0 | Some l \<Rightarrow> f l) [lo..hi])"
  using assms
proof (induction tbl)
  case Nil
  show ?case by simp
next
  case (Cons x xs)
  let ?g = "\<lambda>day. case find (\<lambda>l. driver_id (log_driver l) = i \<and> log_date l = day) xs of
                     None \<Rightarrow> 0 | Some l \<Rightarrow> f l"
  have IH: "sum_list (map f (filter (\<lambda>l. driver_id (log_driver l) = i \<and> lo \<le> log_date l \<and> log_date l \<le> hi) xs))
              = sum_list (map ?g [lo..hi])"
    using Cons by simp
  show ?case
  proof (cases "driver_id (log_driver x) = i")
    case False
    then show ?thesis using IH by simp
  next
    case True
    have "find (\<lambda>l. driver_id (log_driver l) = i \<and> log_date l = log_date x) xs = None"
      using Cons.prems True by (force simp: find_None_iff image_iff)
    then have g0: "?g (log_date x) = 0" by simp
    have "map (\<lambda>day. case find (\<lambda>l. driver_id (log_driver l) = i \<and> log_date l = day) (x # xs) of
                        None \<Rightarrow> 0 | Some l \<Rightarrow> f l) [lo..hi]
            = map (\<lambda>day. (if day = log_date x then f x else 0) + ?g day) [lo..hi]"
      by (rule map_cong) (auto simp: True g0)
    then have "sum_list (map (\<lambda>day. case find (\<lambda>l. driver_id (log_driver l) = i \<and> log_date l = day) (x # xs) of
                        None \<Rightarrow> 0 | Some l \<Rightarrow> f l) [lo..hi])
            = (if lo \<le> log_date x \<and> log_date x \<le> hi then f x else 0) + sum_list (map ?g [lo..hi])"
      by (simp only: sum_list_addf sum_list_upto_delta)
    then show ?thesis using True IH by simp
  qed
qed

text \<open>
  C4. With at most one log per driver and date, get\_current\_cycle\_hours returns the sum,
  over the days of the inclusive window of 8 days (cycle 70/8) or 7 days (otherwise) that
  ends at the given date, of the hours of the closed driving and on-duty intervals of the
  driver's log of that day; a day without a log contributes 0.
\<close>

theorem get_current_cycle_hours_window:
  assumes "unique_driver_date db"
  shows "get_current_cycle_hours now db d (Some date)
       = sum_list (map (\<lambda>day. case log_on db d day of None \<Rightarrow> 0 | Some l \<Rightarrow> duty_hours db l)
                       [date - (cycle_window d - 1) .. date])"
proof -
  have "get_current_cycle_hours now db d (Some date)
      = sum_list (map (duty_hours db)
          (filter (\<lambda>l. driver_id (log_driver l) = driver_id d
                       \<and> date - (cycle_window d - 1) \<le> log_date l \<and> log_date l \<le> date)
                  (eld_log_table db)))"
    by (simp add: get_current_cycle_hours_def Let_def fold_cycle_log_step sum_list_map_sort_key
          cycle_window_def)
  also have "\<dots> = sum_list (map (\<lambda>day. case log_on db d day of None \<Rightarrow> 0 | Some l \<Rightarrow> duty_hours db l)
                       [date - (cycle_window d - 1) .. date])"
    unfolding log_on_def
    by (rule sum_window_logs) (use assms in \<open>simp add: unique_driver_date_def\<close>)
  finally show ?thesis .
qed

lemma upto_0_7: "[0..7::int] = [0, 1, 2, 3, 4, 5, 6, 7]"
  by code_simp

text \<open>
  Witness for C4: logs on days -1, 0 and 7, read on day 7 with the 8-day window; the log
  of day -1 is outside, the open interval of day 7 counts nothing.
\<close>

theorem get_current_cycle_hours_window_witness:
  "unique_driver_date cycle_example
   \<and> get_current_cycle_hours 0 cycle_example example_driver (Some 7) = 11
   \<and> [7 - (cycle_window example_driver - 1) .. 7] = [0, 1, 2, 3, 4, 5, 6, 7]
   \<and> map (\<lambda>day. case log_on cycle_example example_driver day of
                   None \<Rightarrow> 0 | Some l \<Rightarrow> duty_hours cycle_example l) [0, 1, 2, 3, 4, 5, 6, 7]
       = [9, 0, 0, 0, 0, 0, 0, 2]"
  using get_current_cycle_hours_window [where db = cycle_example and d = example_driver
          and date = 7 and now = 0]
  by (simp add: cycle_example_def model_defs example_defs unique_driver_date_def cycle_window_def
        log_on_def duty_hours_def closed_time_def duration_def Let_def upto_0_7)

section \<open>The trip schedule simulator: one day\<close>

lemma add_duty_record_pair:
  "add_duty_record db l s st m n loc = (add_db db l s st m n loc, st + minutes m)"
  by (simp add: add_db_def add_duty_record_def Let_def)

lemma add_all_append:
  "add_all db l st (ps @ qs) = add_all (fst (add_all db l st ps)) l (snd (add_all db l st ps)) qs"
  by (induction ps arbitrary: db st) auto

lemma meal_break_block_eq:
  "meal_break_block db l t day h ct rem = add_all db l ct (meal_break_plan t day h rem)"
  unfolding meal_break_block_def meal_break_plan_def add_duty_record_pair
  by (simp add: Let_def)

lemma driving_periods_block_eq:
  "driving_periods_block db l t day h ct rem = add_all db l ct (driving_periods_plan t day h rem)"
  unfolding driving_periods_block_def driving_periods_plan_def add_duty_record_pair
    meal_break_block_eq
  by (simp add: Let_def)

lemma generate_daily_eq:
  "generate_daily_duty_records db l t day h =
     (let r = add_all db l (combine (log_date l) 6) (day_plan t day h);
          end_of_day = combine (log_date l + 1) 0
      in if snd r < end_of_day
         then add_db (fst r) l off_duty (snd r) ((end_of_day - snd r) / 60)
                ''Off duty rest'' ''Truck stop''
         else fst r)"
  unfolding generate_daily_duty_records_def day_plan_def add_duty_record_pair
    driving_periods_block_eq
  by (simp add: Let_def add_all_append case_prod_beta)

lemma add_db_eq:
  "add_db db l s st m n loc =
     appended db (auto_row (new_id (map rec_id (duty_status_record_table db))) l s st m n loc)"
  by (simp add: add_db_def add_duty_record_def appended_def auto_row_def Let_def)

lemma add_all_eq:
  "add_all db l st ps =
     (db\<lparr>duty_status_record_table :=
           duty_status_record_table db @ plan_rows (map rec_id (duty_status_record_table db)) l st ps\<rparr>,
      plan_end st ps)"
proof (induction ps arbitrary: db st)
  case Nil
  show ?case by simp
next
  case (Cons p ps)
  obtain s m n loc where p: "p = (s, m, n, loc)" by (cases p)
  show ?case
    unfolding p add_all.simps Cons.IH
    by (simp add: add_db_eq appended_def auto_row_def)
qed

lemma generate_daily_full_plan:
  "generate_daily_duty_records db l t day h =
     fst (add_all db l (combine (log_date l) 6) (full_plan t day h (log_date l)))"
  unfolding generate_daily_eq full_plan_def Let_def add_all_append
  by (simp add: add_all_eq add_db_eq appended_def)

lemma generate_daily_rows:
  "generate_daily_duty_records db l t day h =
     db\<lparr>duty_status_record_table :=
          duty_status_record_table db
          @ plan_rows (map rec_id (duty_status_record_table db)) l (combine (log_date l) 6)
              (full_plan t day h (log_date l))\<rparr>"
  by (simp add: generate_daily_full_plan add_all_eq)

lemma new_rows_generate_daily:
  "new_rows db (generate_daily_duty_records db l t day h) =
     plan_rows (map rec_id (duty_status_record_table db)) l (combine (log_date l) 6)
       (full_plan t day h (log_date l))"
  by (simp add: generate_daily_rows new_rows_def)

lemma plan_end_eq: "plan_end st ps = st + plan_minutes ps * 60"
  by (induction ps arbitrary: st) (auto simp: plan_minutes_def minutes_def algebra_simps)

lemma plan_rows_closed:
  "r \<in> set (plan_rows ids l st ps) \<Longrightarrow> rec_eld_log r = log_id l \<and> end_time r \<noteq> None"
  by (induction ps arbitrary: ids st) (auto simp: auto_row_def)

lemma plan_rows_start:
  "r \<in> set (plan_rows ids l st ps) \<Longrightarrow> \<forall>p \<in> set ps. 0 \<le> fst (snd p) \<Longrightarrow> st \<le> start_time r"
proof (induction ps arbitrary: ids st)
  case Nil
  then show ?case by simp
next
  case (Cons p ps)
  obtain s m n loc where p: "p = (s, m, n, loc)" by (cases p)
  have m: "0 \<le> m" using Cons.prems(2) by (simp add: p)
  from Cons.prems(1) consider "r = auto_row (new_id ids) l s st m n loc"
    | "r \<in> set (plan_rows (ids @ [new_id ids]) l (st + minutes m) ps)"
    by (auto simp: p)
  then show ?case
  proof cases
    case 1
    then show ?thesis by (simp add: auto_row_def)
  next
    case 2
    then have "st + minutes m \<le> start_time r" using Cons.IH Cons.prems(2) by simp
    then show ?thesis using m by (simp add: minutes_def)
  qed
qed

lemma plan_rows_hd:
  "ps \<noteq> [] \<Longrightarrow> start_time (hd (plan_rows ids l st ps)) = st"
  by (cases ps) (auto simp: auto_row_def)

lemma plan_rows_Nil [simp]: "plan_rows ids l st ps = [] \<longleftrightarrow> ps = []"
  by (cases ps) auto

lemma plan_rows_last:
  "ps \<noteq> [] \<Longrightarrow> end_time (last (plan_rows ids l st ps)) = Some (plan_end st ps)"
proof (induction ps arbitrary: ids st)
  case Nil
  then show ?case by simp
next
  case (Cons p ps)
  obtain s m n loc where p: "p = (s, m, n, loc)" by (cases p)
  show ?case
  proof (cases "ps = []")
    case True
    then show ?thesis by (simp add: p auto_row_def)
  next
    case False
    then show ?thesis using Cons.IH [OF False] by (simp add: p)
  qed
qed

lemma plan_rows_chained: "chained (plan_rows ids l st ps)"
proof (induction ps arbitrary: ids st)
  case Nil
  show ?case by simp
next
  case (Cons p ps)
  obtain s m n loc where p: "p = (s, m, n, loc)" by (cases p)
  show ?case
  proof (cases ps)
    case Nil
    then show ?thesis by (simp add: p)
  next
    case (Cons q qs)
    obtain s' m' n' loc' where q: "q = (s', m', n', loc')" by (cases q)
    have "chained (plan_rows (ids @ [new_id ids]) l (st + minutes m) ps)"
      by (rule Cons.IH)
    then show ?thesis by (simp add: p Cons q auto_row_def)
  qed
qed

lemma plan_rows_non_overlapping:
  "\<forall>p \<in> set ps. 0 \<le> fst (snd p) \<Longrightarrow> non_overlapping (plan_rows ids l st ps)"
proof (induction ps arbitrary: ids st)
  case Nil
  show ?case by simp
next
  case (Cons p ps)
  obtain s m n loc where p: "p = (s, m, n, loc)" by (cases p)
  have rest: "\<forall>q \<in> set ps. 0 \<le> fst (snd q)" using Cons.prems by simp
  have "\<not> overlaps (auto_row (new_id ids) l s st m n loc) x"
    if "x \<in> set (plan_rows (ids @ [new_id ids]) l (st + minutes m) ps)" for x
  proof -
    have "st + minutes m \<le> start_time x" using plan_rows_start [OF that rest] .
    then show ?thesis by (simp add: overlaps_def auto_row_def end_or_zero_def)
  qed
  then show ?case using Cons.IH [OF rest] by (simp add: p list_all_iff)
qed

lemma plan_rows_durations:
  "\<forall>p \<in> set ps. 0 \<le> fst (snd p) \<Longrightarrow>
   list_all (\<lambda>r. start_time r \<le> end_or_zero r) (plan_rows ids l st ps)"
  by (induction ps arbitrary: ids st) (auto simp: auto_row_def end_or_zero_def minutes_def)

lemma floor_rat_numeral_div [simp]:
  "\<lfloor>numeral a / numeral b :: rat\<rfloor> = numeral a div numeral b"
  using floor_divide_of_int_eq [of "numeral a" "numeral b", where ?'a = rat] by simp

lemma plan_minutes_simps [simp]:
  "plan_minutes [] = 0"
  "plan_minutes (p # ps) = fst (snd p) + plan_minutes ps"
  "plan_minutes (ps @ qs) = plan_minutes ps + plan_minutes qs"
  by (simp_all add: plan_minutes_def)

lemma meal_break_plan_bounds:
  "plan_minutes (meal_break_plan t day h rem) \<le> 270
   \<and> (\<forall>p \<in> set (meal_break_plan t day h rem). 0 \<le> fst (snd p))"
  by (simp add: meal_break_plan_def Let_def min_def)

lemma driving_periods_plan_minutes:
  "plan_minutes (driving_periods_plan t day h rem) \<le> 750"
proof -
  define r1 where "r1 = (if day = 0 then rem - 1 else rem)"
  define dt where "dt = min (if day > 0 then 8 else 7) r1"
  define pm where "pm = plan_minutes (meal_break_plan t day h (r1 - dt))"
  have eq: "plan_minutes (driving_periods_plan t day h rem)
              = (if day = 0 then 60 else 0) + dt * 60 + (if r1 - dt > 0 then pm else 0)"
    by (simp add: driving_periods_plan_def Let_def r1_def dt_def pm_def)
  have dt: "dt \<le> (if day > 0 then 8 else 7)" by (simp add: dt_def)
  have pm: "pm \<le> 270" unfolding pm_def using meal_break_plan_bounds by blast
  show ?thesis unfolding eq using dt pm by (cases "day = 0") (simp_all split: if_splits)
qed

lemma meal_break_plan_nonneg:
  "(s, m, n, loc) \<in> set (meal_break_plan t day h rem) \<Longrightarrow> 0 \<le> m"
  using meal_break_plan_bounds [of t day h rem] by auto

lemma driving_periods_plan_nonneg:
  assumes "0 < rem" "day = 0 \<longrightarrow> 1 \<le> rem"
  shows "\<forall>p \<in> set (driving_periods_plan t day h rem). 0 \<le> fst (snd p)"
  using assms unfolding driving_periods_plan_def Let_def
  by (auto simp: min_def dest: meal_break_plan_nonneg)

lemma day_plan_minutes: "plan_minutes (day_plan t day h) \<le> 780"
proof -
  define r where "r = min 11 (h - of_nat day * 11)"
  define pm where "pm = plan_minutes (driving_periods_plan t day h r)"
  have eq: "plan_minutes (day_plan t day h) = 15 + (if r > 0 then pm else 0) + 15"
    by (simp add: day_plan_def Let_def r_def pm_def)
  have pm: "pm \<le> 750" unfolding pm_def by (rule driving_periods_plan_minutes)
  show ?thesis unfolding eq using pm by simp
qed

lemma day_plan_nonneg:
  assumes "\<not> (day = 0 \<and> 0 < h \<and> h < 1)"
  shows "\<forall>p \<in> set (day_plan t day h). 0 \<le> fst (snd p)"
proof -
  define r where "r = min 11 (h - of_nat day * 11)"
  define dp where "dp = driving_periods_plan t day h r"
  have eq: "day_plan t day h =
              [(on_duty_not_driving, 15, ''Pre-trip inspection'', current_location t)]
              @ (if r > 0 then dp else [])
              @ [(on_duty_not_driving, 15, ''Post-trip inspection'', dropoff_location t)]"
    by (simp add: day_plan_def Let_def r_def dp_def)
  show ?thesis
  proof (cases "0 < r")
    case False
    then show ?thesis unfolding eq by simp
  next
    case True
    have imp: "day = 0 \<longrightarrow> 1 \<le> r"
      using assms True unfolding r_def by auto
    have "\<forall>p \<in> set dp. 0 \<le> fst (snd p)"
      unfolding dp_def by (rule driving_periods_plan_nonneg [OF True imp])
    then show ?thesis unfolding eq using True by simp
  qed
qed

lemma day_plan_end_before_midnight:
  "plan_end (combine d 6) (day_plan t day h) < combine (d + 1) 0"
proof -
  have "plan_minutes (day_plan t day h) \<le> 780" by (rule day_plan_minutes)
  then have "plan_minutes (day_plan t day h) * 60 \<le> 46800" by simp
  moreover have "combine (d + 1) 0 = combine d 6 + 64800" by (simp add: combine_def)
  ultimately show ?thesis unfolding plan_end_eq by linarith
qed

lemma full_plan_eq:
  "full_plan t day h d =
     day_plan t day h
     @ [(off_duty, (combine (d + 1) 0 - plan_end (combine d 6) (day_plan t day h)) / 60,
         ''Off duty rest'', ''Truck stop'')]"
  by (simp add: full_plan_def Let_def day_plan_end_before_midnight)

lemma plan_end_append:
  "plan_end st (ps @ qs) = plan_end (plan_end st ps) qs"
  by (induction ps arbitrary: st) auto

lemma full_plan_end: "plan_end (combine d 6) (full_plan t day h d) = combine (d + 1) 0"
  by (simp add: full_plan_eq plan_end_append minutes_def field_simps)

lemma full_plan_nonneg:
  assumes "\<not> (day = 0 \<and> 0 < h \<and> h < 1)"
  shows "\<forall>p \<in> set (full_plan t day h d). 0 \<le> fst (snd p)"
  using day_plan_nonneg [OF assms, of t] day_plan_end_before_midnight [of d t day h]
  by (auto simp: full_plan_eq)

lemma full_plan_not_Nil [simp]: "full_plan t day h d \<noteq> []"
  by (simp add: full_plan_eq)

text \<open>
  C9, amended. A generated day only appends rows to the record table; they belong to the
  log and are closed; each row ends where the next one starts; the first starts at 06:00
  of the log's date and the last ends at 24:00. Unless the day is day 0 of a trip of more
  than 0 and less than 1 hour, every row has a non-negative duration and no two rows
  overlap: the rows cover 06:00--24:00 without gap or overlap.
\<close>

theorem generated_day_timeline:
  "let db' = generate_daily_duty_records db l t day h; rs = new_rows db db'
   in take (length (duty_status_record_table db)) (duty_status_record_table db')
        = duty_status_record_table db
    \<and> list_all (\<lambda>r. rec_eld_log r = log_id l \<and> end_time r \<noteq> None) rs
    \<and> chained rs
    \<and> start_time (hd rs) = combine (log_date l) 6
    \<and> end_time (last rs) = Some (combine (log_date l + 1) 0)
    \<and> (\<not> (day = 0 \<and> 0 < h \<and> h < 1) \<longrightarrow>
          list_all (\<lambda>r. start_time r \<le> end_or_zero r) rs \<and> non_overlapping rs)"
proof -
  let ?rs = "plan_rows (map rec_id (duty_status_record_table db)) l (combine (log_date l) 6)
               (full_plan t day h (log_date l))"
  have rows: "new_rows db (generate_daily_duty_records db l t day h) = ?rs"
    by (rule new_rows_generate_daily)
  have keep: "take (length (duty_status_record_table db))
                (duty_status_record_table (generate_daily_duty_records db l t day h))
              = duty_status_record_table db"
    by (simp add: generate_daily_rows)
  have closed: "list_all (\<lambda>r. rec_eld_log r = log_id l \<and> end_time r \<noteq> None) ?rs"
    unfolding list_all_iff using plan_rows_closed by blast
  have chain: "chained ?rs" by (rule plan_rows_chained)
  have first: "start_time (hd ?rs) = combine (log_date l) 6"
    by (rule plan_rows_hd) simp
  have final: "end_time (last ?rs) = Some (combine (log_date l + 1) 0)"
    by (simp add: plan_rows_last full_plan_end)
  have disj: "list_all (\<lambda>r. start_time r \<le> end_or_zero r) ?rs \<and> non_overlapping ?rs"
    if "\<not> (day = 0 \<and> 0 < h \<and> h < 1)"
    using plan_rows_durations [OF full_plan_nonneg [OF that]]
      plan_rows_non_overlapping [OF full_plan_nonneg [OF that]] by blast
  show ?thesis
    unfolding Let_def rows
    by (intro conjI impI;
        (rule keep closed chain first final
         | (rule disj [THEN conjunct1], assumption)
         | (rule disj [THEN conjunct2], assumption)))
qed

lemmas simulator_defs =
  generate_trip_eld_logs_def trip_day_step_def get_or_create_eld_log_def
  generate_daily_duty_records_def driving_periods_block_def meal_break_block_def
  add_duty_record_def combine_def date_of_def py_int_def new_rows_def

text \<open>Witness for C9: day 0 of a trip of 9.5 hours.\<close>

theorem generated_day_timeline_witness:
  "\<not> ((0::nat) = 0 \<and> (0::rat) < 19 / 2 \<and> (19 / 2 :: rat) < 1)
   \<and> map (\<lambda>r. (duty_status r, start_time r, end_time r)) (example_day (19 / 2) 0)
       = [(on_duty_not_driving, 21600, Some 22500), (on_duty_not_driving, 22500, Some 26100),
          (driving, 26100, Some 51300), (off_duty, 51300, Some 53100),
          (driving, 53100, Some 54900), (on_duty_not_driving, 54900, Some 58500),
          (on_duty_not_driving, 58500, Some 59400), (off_duty, 59400, Some 86400)]
   \<and> chained (example_day (19 / 2) 0)
   \<and> non_overlapping (example_day (19 / 2) 0)
   \<and> combine (log_date (example_log 0 0)) 6 = 21600
   \<and> combine (log_date (example_log 0 0) + 1) 0 = 86400"
  using generated_day_timeline [where db = empty_db and l = "example_log 0 0"
          and t = "example_trip (19 / 2)" and day = 0 and h = "19 / 2"]
  by (simp add: example_day_def simulator_defs model_defs example_defs Let_def)

text \<open>
  C9 as stated fails: the day generated for a 5-hour trip has no interval before 06:00,
  so 00:00--06:00 is not covered.
\<close>

theorem generated_day_starts_at_six_counterexample:
  "combine (log_date (example_log 0 0)) 0 = 0
   \<and> map (\<lambda>r. (start_time r, end_time r)) (example_day 5 0)
       = [(21600, Some 22500), (22500, Some 26100), (26100, Some 40500),
          (40500, Some 41400), (41400, Some 86400)]"
  by (simp add: example_day_def simulator_defs model_defs example_defs Let_def)

section \<open>The open-interval invariant\<close>

lemma open_count_cong:
  "duty_status_record_table db' = duty_status_record_table db \<Longrightarrow> open_count db' lid = open_count db lid"
  by (simp add: open_count_def)

lemma open_count_add_duty_record [simp]:
  "open_count (fst (add_duty_record db l s st m n loc)) lid = open_count db lid"
  by (simp add: add_duty_record_def open_count_def Let_def)

lemma open_count_generate_daily [simp]:
  "open_count (generate_daily_duty_records db l t day h) lid = open_count db lid"
proof -
  have "filter (\<lambda>r. rec_eld_log r = lid \<and> end_time r = None) (plan_rows ids l st ps) = []"
    for ids st ps
    using plan_rows_closed [of _ ids l st ps] by (auto simp: filter_empty_conv)
  then show ?thesis by (simp add: generate_daily_rows open_count_def)
qed

lemma table_get_or_create [simp]:
  "duty_status_record_table (fst (get_or_create_eld_log db t date)) = duty_status_record_table db"
  by (simp add: get_or_create_eld_log_def Let_def split: option.splits)

lemma open_count_save_eld_log [simp]:
  "open_count (save_eld_log db l) lid = open_count db lid"
  by (simp add: open_count_def)

lemma open_count_get_or_create [simp]:
  "open_count (fst (get_or_create_eld_log db t date)) lid = open_count db lid"
  by (simp add: open_count_def)

lemma open_count_trip_day_step [simp]:
  "open_count (fst (trip_day_step t sd h day (db, logs))) lid = open_count db lid"
  by (simp add: trip_day_step_def Let_def case_prod_beta)

lemma open_count_fold_days:
  "open_count (fst (fold (trip_day_step t sd h) days st)) lid = open_count (fst st) lid"
proof (induction days arbitrary: st)
  case Nil
  show ?case by simp
next
  case (Cons day days)
  obtain db logs where st: "st = (db, logs)" by (cases st)
  show ?case by (simp add: Cons.IH) (simp add: st)
qed

lemma filter_map_shrinks:
  assumes "\<And>x. P (g x) \<Longrightarrow> P x"
  shows "length (filter P (map g xs)) \<le> length (filter P xs)"
  using assms by (induction xs) auto

lemma filter_map_shrinks_strictly:
  assumes "\<And>x. P (g x) \<Longrightarrow> P x" "p \<in> set xs" "P p" "\<not> P (g p)"
  shows "length (filter P (map g xs)) < length (filter P xs)"
  using assms(2)
proof (induction xs)
  case Nil
  then show ?case by simp
next
  case (Cons x xs)
  have le: "length (filter P (map g xs)) \<le> length (filter P xs)"
    by (rule filter_map_shrinks) (rule assms(1))
  show ?case
  proof (cases "x = p")
    case True
    then show ?thesis using le assms(3,4) by simp
  next
    case False
    then have "p \<in> set xs" using Cons.prems by simp
    then have "length (filter P (map g xs)) < length (filter P xs)" by (rule Cons.IH)
    then show ?thesis using assms(1) [of x] by auto
  qed
qed

lemma open_count_close_previous_le:
  "open_count (close_previous db l start) lid \<le> open_count db lid"
proof (cases "qs_last (filter (\<lambda>r. end_time r = None) (duty_records db l))")
  case None
  then show ?thesis by (simp add: close_previous_def)
next
  case (Some p)
  show ?thesis
    unfolding open_count_def table_close_previous Some option.case
    by (rule filter_map_shrinks) (auto split: if_splits)
qed

lemma open_count_close_previous_own:
  assumes "open_count db (log_id l) \<le> 1"
  shows "open_count (close_previous db l start) (log_id l) = 0"
proof (cases "qs_last (filter (\<lambda>r. end_time r = None) (duty_records db l))")
  case None
  then have "filter (\<lambda>r. end_time r = None) (duty_records db l) = []"
    by (simp add: qs_last_def split: if_splits)
  then have "filter (\<lambda>r. rec_eld_log r = log_id l \<and> end_time r = None) (duty_status_record_table db) = []"
    by (simp add: filter_records_sorted)
  then show ?thesis using None by (simp add: close_previous_def open_count_def)
next
  case (Some p)
  have "p \<in> set (filter (\<lambda>r. end_time r = None) (duty_records db l))"
    using Some by (rule qs_last_in_set)
  then have p: "p \<in> set (duty_status_record_table db)" "rec_eld_log p = log_id l" "end_time p = None"
    by (simp_all add: set_duty_records)
  have "open_count (close_previous db l start) (log_id l) < open_count db (log_id l)"
    unfolding open_count_def table_close_previous Some option.case
    by (rule filter_map_shrinks_strictly [where p = p]) (use p in \<open>auto split: if_splits\<close>)
  then show ?thesis using assms by simp
qed

lemma open_count_create:
  assumes "open_count db lid \<le> 1"
  shows "open_count (fst (create_duty_status_record now db l status start loc lat lng memo odo)) lid \<le> 1"
proof -
  have eq: "open_count (fst (create_duty_status_record now db l status start loc lat lng memo odo)) lid
          = open_count (close_previous db l start) lid + (if lid = log_id l then 1 else 0)"
    unfolding open_count_def table_create_duty_status_record
    by (auto simp: new_record_def)
  show ?thesis
  proof (cases "lid = log_id l")
    case True
    then show ?thesis using eq open_count_close_previous_own [of db l start] assms by simp
  next
    case False
    then show ?thesis using eq open_count_close_previous_le [of db l start lid] assms by simp
  qed
qed

lemma only_open_record:
  assumes "open_count db (log_id l) \<le> 1" "r \<in> set (duty_status_record_table db)"
    "rec_eld_log r = log_id l" "end_time r = None"
  shows "filter (\<lambda>x. end_time x = None) (duty_records db l) = [r]"
proof -
  let ?xs = "filter (\<lambda>x. rec_eld_log x = log_id l \<and> end_time x = None) (duty_status_record_table db)"
  have "r \<in> set ?xs" using assms(2-4) by simp
  moreover have "length ?xs \<le> 1" using assms(1) by (simp add: open_count_def)
  ultimately have "?xs = [r]"
    by (cases ?xs) (auto simp del: set_filter filter.simps)
  then show ?thesis by (simp add: filter_records_sorted)
qed

lemma closed_at_start:
  assumes "open_count db (log_id l) \<le> 1" "r \<in> set (duty_status_record_table db)"
    "rec_eld_log r = log_id l" "end_time r = None"
  shows "r\<lparr>end_time := Some start\<rparr>
           \<in> set (duty_status_record_table
                    (fst (create_duty_status_record now db l status start loc lat lng memo odo)))"
proof -
  have "qs_last (filter (\<lambda>x. end_time x = None) (duty_records db l)) = Some r"
    using only_open_record [OF assms] by (simp add: qs_last_def)
  then have "duty_status_record_table (close_previous db l start)
               = map (\<lambda>x. if rec_id x = rec_id r then r\<lparr>end_time := Some start\<rparr> else x)
                     (duty_status_record_table db)"
    by (simp add: table_close_previous)
  then have "r\<lparr>end_time := Some start\<rparr> \<in> set (duty_status_record_table (close_previous db l start))"
    using assms(2) by (auto simp: image_iff intro!: bexI [where x = r])
  then show ?thesis by (simp add: table_create_duty_status_record)
qed

text \<open>
  C6. If a log has at most one open interval, it still has at most one after
  create\_duty\_status\_record (on this or any other log), and an interval of the mutated
  log that was open is closed at exactly the new interval's start. The other operations
  (\_update\_eld\_log\_totals, check\_hos\_violations, \_add\_duty\_record,
  \_generate\_daily\_duty\_records, generate\_trip\_eld\_logs) keep the bound as well.
\<close>

theorem open_interval_invariant:
  assumes "open_count db lid \<le> 1"
  shows "open_count (fst (create_duty_status_record now db l status start loc lat lng memo odo)) lid \<le> 1
       \<and> (lid = log_id l \<longrightarrow>
            (\<forall>r \<in> set (duty_status_record_table db).
               rec_eld_log r = log_id l \<and> end_time r = None \<longrightarrow>
               r\<lparr>end_time := Some start\<rparr>
                 \<in> set (duty_status_record_table
                          (fst (create_duty_status_record now db l status start loc lat lng memo odo)))))
       \<and> open_count (fst (update_eld_log_totals db l)) lid \<le> 1
       \<and> open_count (fst (check_hos_violations now db l)) lid \<le> 1
       \<and> open_count (fst (add_duty_record db l status start m memo loc)) lid \<le> 1
       \<and> open_count (generate_daily_duty_records db l t day h) lid \<le> 1
       \<and> (case generate_trip_eld_logs now db t of
             Inr (db', logs) \<Rightarrow> open_count db' lid \<le> 1
           | Inl e \<Rightarrow> True)"
proof -
  have a: "open_count (fst (create_duty_status_record now db l status start loc lat lng memo odo)) lid \<le> 1"
    using assms by (rule open_count_create)
  have b: "r\<lparr>end_time := Some start\<rparr>
             \<in> set (duty_status_record_table
                      (fst (create_duty_status_record now db l status start loc lat lng memo odo)))"
    if "lid = log_id l" "r \<in> set (duty_status_record_table db)" "rec_eld_log r = log_id l"
       "end_time r = None" for r
    using closed_at_start [OF _ that(2-4)] assms that(1) by simp
  have c: "open_count (fst (update_eld_log_totals db l)) lid \<le> 1"
    using assms by (simp add: fst_update_eld_log_totals open_count_def)
  have d: "open_count (fst (check_hos_violations now db l)) lid \<le> 1"
    using assms by (simp add: open_count_def)
  have e: "case generate_trip_eld_logs now db t of
             Inr (db', logs) \<Rightarrow> open_count db' lid \<le> 1
           | Inl e \<Rightarrow> True"
    using assms
    by (simp add: generate_trip_eld_logs_def Let_def open_count_fold_days case_prod_beta
          split: option.splits)
  have f: "open_count (fst (add_duty_record db l status start m memo loc)) lid \<le> 1"
    using assms by simp
  have g: "open_count (generate_daily_duty_records db l t day h) lid \<le> 1"
    using assms by simp
  show ?thesis
    by (intro conjI impI ballI; (rule a c d e f g | (rule b; simp)))
qed

text \<open>Witness for C6: an open driving interval from 08:00, then off duty at 10:00.\<close>

theorem open_interval_invariant_witness:
  "open_count (example_db [example_log 0 0] [interval 0 0 driving 8 None]) 0 \<le> 1
   \<and> open_count (fst mutation_example) 0 = 1
   \<and> map (\<lambda>r. (start_time r, end_time r)) (duty_status_record_table (fst mutation_example))
       = [(28800, Some 36000), (36000, None)]
   \<and> (interval 0 0 driving 8 None)\<lparr>end_time := Some 36000\<rparr>
       \<in> set (duty_status_record_table (fst mutation_example))
   \<and> open_count (generate_daily_duty_records
                   (example_db [example_log 0 0] [interval 0 0 driving 8 None])
                   (example_log 0 0) (example_trip 5) 0 5) 0 \<le> 1"
  using open_interval_invariant [where db = "example_db [example_log 0 0] [interval 0 0 driving 8 None]"
          and lid = 0 and l = "example_log 0 0" and now = 0 and status = off_duty and start = 36000
          and loc = "[]" and lat = None and lng = None and memo = "[]" and odo = None
          and t = "example_trip 5" and day = 0 and h = 5]
  by (simp add: mutation_example_def model_defs example_defs open_count_def Let_def)

section \<open>The trip schedule simulator: whole trips\<close>

lemma fold_max_init: "fold max xs (a::nat) = max a (fold max xs 0)"
proof (induction xs arbitrary: a)
  case Nil
  show ?case by simp
next
  case (Cons x xs)
  show ?case
    unfolding fold_simps using Cons.IH [of "max x a"] Cons.IH [of "max x 0"] by simp
qed

lemma new_id_simps:
  "new_id [] = Suc 0"
  "new_id (x # xs) = max (Suc x) (new_id xs)"
  "new_id (xs @ ys) = max (new_id xs) (new_id ys)"
proof -
  show "new_id [] = Suc 0" by (simp add: new_id_def)
  show "new_id (x # xs) = max (Suc x) (new_id xs)"
    using fold_max_init [of xs "max x 0"] by (simp add: new_id_def)
  show "new_id (xs @ ys) = max (new_id xs) (new_id ys)"
    using fold_max_init [of ys "fold max xs 0"] by (simp add: new_id_def)
qed

lemma new_id_fresh: "x \<in> set ids \<Longrightarrow> x < new_id ids"
  by (induction ids) (auto simp: new_id_simps)

lemma plan_rows_from_eq:
  "plan_rows ids l st ps = plan_rows_from (new_id ids) l st ps"
proof (induction ps arbitrary: ids st)
  case Nil
  show ?case by simp
next
  case (Cons p ps)
  obtain s m n loc where p: "p = (s, m, n, loc)" by (cases p)
  have "new_id (ids @ [new_id ids]) = Suc (new_id ids)"
    by (simp add: new_id_simps)
  then show ?case by (simp add: p Cons.IH)
qed

lemma length_days:
  "length (snd (fold (trip_day_step t sd h) days st)) = length (snd st) + length days"
proof (induction days arbitrary: st)
  case Nil
  show ?case by simp
next
  case (Cons day days)
  obtain db logs where st: "st = (db, logs)" by (cases st)
  have "length (snd (trip_day_step t sd h day (db, logs))) = Suc (length logs)"
    by (simp add: trip_day_step_def Let_def case_prod_beta)
  then show ?case by (simp add: Cons.IH st)
qed

lemma days_needed_floor: "max 1 (py_int x + 1) = max 1 (\<lfloor>x\<rfloor> + 1)"
proof (cases "0 \<le> x")
  case True
  then show ?thesis by (simp add: py_int_def)
next
  case False
  then have "\<lceil>x\<rceil> \<le> 0" "\<lfloor>x\<rfloor> < 0" by (simp_all add: ceiling_le_iff floor_less_iff)
  then show ?thesis using False by (simp add: py_int_def)
qed

lemma generate_trip_eld_logs_eq:
  assumes "route t = Some rt"
  shows "generate_trip_eld_logs now db t = Inr (trip_result now db t (estimated_duration_hours rt))"
  using assms by (simp add: generate_trip_eld_logs_def Let_def start_date_def trip_result_def)

lemma length_trip_result:
  "int (length (snd (trip_result now db t h))) = max 1 (\<lfloor>h / 11\<rfloor> + 1)"
  using days_needed_floor [of "h / 11"] by (simp add: trip_result_def length_days)

lemma eld_log_get_no_prior:
  "no_prior_logs db d \<Longrightarrow> eld_log_get db d date = None"
proof -
  assume "no_prior_logs db d"
  then have "filter (\<lambda>l. driver_id (log_driver l) = driver_id d \<and> log_date l = date) (eld_log_table db) = []"
    by (auto simp: no_prior_logs_def list_all_iff filter_empty_conv)
  then show ?thesis by (simp add: eld_log_get_def qs_first_def)
qed

lemma trip_day_step_created:
  assumes "eld_log_get db (trip_driver t) (sd + int day) = None"
  shows "trip_day_step t sd h day (db, logs) =
           (generate_daily_duty_records (with_log db (new_log db t (sd + int day)))
              (new_log db t (sd + int day)) t day h,
            logs @ [new_log db t (sd + int day)])"
  using assms
  by (simp add: trip_day_step_def get_or_create_eld_log_def Let_def new_log_def with_log_def)

lemma auto_row_simps [simp]:
  "rec_eld_log (auto_row i l s st m n loc) = log_id l"
  "duty_status (auto_row i l s st m n loc) = s"
  "start_time (auto_row i l s st m n loc) = st"
  "end_time (auto_row i l s st m n loc) = Some (st + minutes m)"
  by (simp_all add: auto_row_def)

lemma generate_daily_rows_from:
  "generate_daily_duty_records db l t day h =
     db\<lparr>duty_status_record_table :=
          duty_status_record_table db
          @ plan_rows_from (new_id (map rec_id (duty_status_record_table db))) l
              (combine (log_date l) 6) (full_plan t day h (log_date l))\<rparr>"
  by (simp add: generate_daily_rows plan_rows_from_eq)

lemma fresh_log_rows:
  assumes "records_reference_logs db" "new_id (map log_id (eld_log_table db)) \<le> i"
  shows "filter (\<lambda>r. rec_eld_log r = i \<and> P r) (duty_status_record_table db) = []"
proof -
  have "rec_eld_log r \<noteq> i" if "r \<in> set (duty_status_record_table db)" for r
  proof -
    have "\<exists>l \<in> set (eld_log_table db). log_id l = rec_eld_log r"
      using assms(1) that by (simp add: records_reference_logs_def list_all_iff list_ex_iff)
    then obtain l where "l \<in> set (eld_log_table db)" "log_id l = rec_eld_log r" ..
    then have "rec_eld_log r < new_id (map log_id (eld_log_table db))"
      using new_id_fresh [of "log_id l" "map log_id (eld_log_table db)"] by (force simp: image_iff)
    then show ?thesis using assms(2) by simp
  qed
  then show ?thesis by (auto simp: filter_empty_conv)
qed

lemma single_day_result:
  assumes "no_prior_logs db (trip_driver t)" "0 \<le> h" "h < 11"
  shows "trip_result now db t h =
           (generate_daily_duty_records (with_log db (new_log db t (start_date now t)))
              (new_log db t (start_date now t)) t 0 h,
            [new_log db t (start_date now t)])"
proof -
  have "\<lfloor>h / 11\<rfloor> = 0" using assms(2,3) by (simp add: floor_eq_iff)
  then have "nat (max 1 (py_int (h / 11) + 1)) = 1" using assms(2) by (simp add: py_int_def)
  then have "trip_result now db t h = trip_day_step t (start_date now t) h 0 (db, [])"
    by (simp add: trip_result_def)
  also have "\<dots> = (generate_daily_duty_records (with_log db (new_log db t (start_date now t)))
              (new_log db t (start_date now t)) t 0 h,
            [new_log db t (start_date now t)])"
    using trip_day_step_created [of db t "start_date now t" 0 h "[]"]
      eld_log_get_no_prior [OF assms(1)] by simp
  finally show ?thesis .
qed

lemma plan_rows_from_own:
  "filter (\<lambda>r. rec_eld_log r = log_id l \<and> P r) (plan_rows_from i l st ps)
     = filter P (plan_rows_from i l st ps)"
  by (induction ps arbitrary: i st) auto

lemma plan_rows_from_other:
  "log_id l \<noteq> j \<Longrightarrow> filter (\<lambda>r. rec_eld_log r = j \<and> P r) (plan_rows_from i l st ps) = []"
  by (induction ps arbitrary: i st) auto

lemma day_view_generated:
  assumes "records_reference_logs db"
  shows "day_view (generate_daily_duty_records (with_log db (new_log db t date)) (new_log db t date) t day h)
           (new_log db t date)
           (plan_rows_from (new_id (map rec_id (duty_status_record_table db))) (new_log db t date)
              (combine date 6) (full_plan t day h date))"
proof -
  have "filter (\<lambda>r. rec_eld_log r = log_id (new_log db t date) \<and> P r) (duty_status_record_table db) = []"
    for P
    by (rule fresh_log_rows [OF assms]) (simp add: new_log_def)
  then show ?thesis
    by (simp add: day_view_def generate_daily_rows_from with_log_def plan_rows_from_own)
       (simp add: new_log_def)
qed

lemma view_records:
  assumes "day_view D l R"
  shows "filter Q (duty_records D l) = sort_key start_time (filter Q R)"
  using assms by (simp add: filter_records_sorted day_view_def)

lemma view_closed_time:
  assumes "day_view D l R"
  shows "closed_time D l P
           = sum_list (map duration (filter (\<lambda>r. end_time r \<noteq> None \<and> P (duty_status r)) R))"
  using assms by (simp add: closed_time_def day_view_def)

lemma check_driving_view:
  assumes "day_view D l R"
    "sum_list (map duration (filter (\<lambda>r. end_time r \<noteq> None \<and> duty_status r = driving) R)) \<le> 39600"
  shows "check_daily_driving_limit now D l = None"
proof -
  have "closed_time D l (\<lambda>s. s = driving) \<le> 39600"
    using assms by (simp add: view_closed_time)
  then show ?thesis
    unfolding check_daily_driving_limit_def Let_def driving_seconds
    by (simp add: DAILY_DRIVING_LIMIT_def)
qed

lemma check_duty_view:
  assumes "day_view D l R"
    "\<forall>a \<in> set (filter is_duty R). \<forall>b \<in> set (filter is_duty R).
       end_or_zero b - start_time a \<le> 50400"
  shows "check_daily_duty_limit D l = None"
proof -
  let ?S = "sort_key start_time (filter is_duty R)"
  have "(e - start_time a) / 3600 \<le> 14"
    if "qs_first ?S = Some a" "qs_last ?S = Some b" "end_time b = Some e" for a b e
  proof -
    have "a \<in> set (filter is_duty R)" "b \<in> set (filter is_duty R)"
      using qs_first_in_set [OF that(1)] qs_last_in_set [OF that(2)] by simp_all
    then have "end_or_zero b - start_time a \<le> 50400" using assms(2) by blast
    then show ?thesis using that(3) by (simp add: end_or_zero_def)
  qed
  then have "\<not> (e - start_time a) / 3600 > 14"
    if "qs_first ?S = Some a" "qs_last ?S = Some b" "end_time b = Some e" for a b e
    using that by (simp add: not_less)
  then show ?thesis
    unfolding check_daily_duty_limit_def view_records [OF assms(1)] Let_def DAILY_DUTY_LIMIT_def
    by (simp split: option.splits)
qed

lemma check_break_view:
  assumes "day_view D l R"
  shows "check_break_requirement D l
           = break_loop l (sort_key start_time (filter (\<lambda>r. duty_status r = driving) R)) 0 None"
  by (simp add: check_break_requirement_def view_records [OF assms])

lemma get_current_cycle_hours_eq:
  "get_current_cycle_hours now db d (Some date)
      = sum_list (map (duty_hours db)
          (filter (\<lambda>l. driver_id (log_driver l) = driver_id d
                       \<and> date - (cycle_window d - 1) \<le> log_date l \<and> log_date l \<le> date)
                  (eld_log_table db)))"
  by (simp add: get_current_cycle_hours_def Let_def fold_cycle_log_step sum_list_map_sort_key
        cycle_window_def)

lemma check_cycle_bound:
  assumes "get_current_cycle_hours now D (log_driver l) (Some (log_date l)) \<le> 60"
  shows "check_cycle_limit now D l = None"
  using assms
  by (simp add: check_cycle_limit_def Let_def CYCLE_70_8_LIMIT_def CYCLE_60_7_LIMIT_def)

lemma check_rest_no_previous:
  assumes "eld_log_get D (log_driver l) (log_date l - 1) = None"
  shows "check_daily_rest_requirement D l = None"
  using assms by (simp add: check_daily_rest_requirement_def Let_def)

lemma no_violations:
  assumes "check_daily_driving_limit now D l = None" "check_daily_duty_limit D l = None"
    "check_cycle_limit now D l = None" "check_break_requirement D l = None"
    "check_daily_rest_requirement D l = None"
  shows "snd (check_hos_violations now D l) = []"
  using assms by (simp add: violations_eq option_list_def)

lemma no_prior_filter:
  "no_prior_logs db d \<Longrightarrow>
   filter (\<lambda>l. driver_id (log_driver l) = driver_id d \<and> P l) (eld_log_table db) = []"
  by (auto simp: no_prior_logs_def list_all_iff filter_empty_conv)

lemma single_day_no_violations:
  assumes view: "day_view D l R"
    and logs: "eld_log_table D = eld_log_table db @ [l]"
    and prior: "no_prior_logs db (log_driver l)"
    and drive: "sum_list (map duration (filter (\<lambda>r. end_time r \<noteq> None \<and> duty_status r = driving) R)) \<le> 39600"
    and window: "\<forall>a \<in> set (filter is_duty R). \<forall>b \<in> set (filter is_duty R).
                   end_or_zero b - start_time a \<le> 50400"
    and break: "break_loop l (sort_key start_time (filter (\<lambda>r. duty_status r = driving) R)) 0 None = None"
    and duty: "sum_list (map duration
                 (filter (\<lambda>r. end_time r \<noteq> None \<and> (duty_status r = driving \<or> duty_status r = on_duty_not_driving)) R))
               \<le> 216000"
  shows "snd (check_hos_violations now D l) = []"
proof -
  have c1: "check_daily_driving_limit now D l = None"
    using view drive by (rule check_driving_view)
  have c2: "check_daily_duty_limit D l = None"
    using view window by (rule check_duty_view)
  have "get_current_cycle_hours now D (log_driver l) (Some (log_date l))
          = (if 0 \<le> cycle_window (log_driver l) - 1 then duty_hours D l else 0)"
    by (simp add: get_current_cycle_hours_eq logs no_prior_filter [OF prior])
  also have "\<dots> = duty_hours D l" by (simp add: cycle_window_def)
  also have "\<dots> \<le> 60"
    using duty by (simp add: duty_hours_def view_closed_time [OF view])
  finally have c3: "check_cycle_limit now D l = None" by (rule check_cycle_bound)
  have c4: "check_break_requirement D l = None"
    using break by (simp add: check_break_view [OF view])
  have "eld_log_get D (log_driver l) (log_date l - 1) = None"
    by (simp add: eld_log_get_def logs no_prior_filter [OF prior] qs_first_def)
  then have c5: "check_daily_rest_requirement D l = None" by (rule check_rest_no_previous)
  show ?thesis using c1 c2 c3 c4 c5 by (rule no_violations)
qed

lemma py_int_small: "0 \<le> h \<Longrightarrow> h < 11 \<Longrightarrow> py_int (h / 11) = 0"
  by (simp add: py_int_def floor_eq_iff)

lemma day0_plan_short:
  assumes "0 < h" "h \<le> 8"
  shows "day_plan t 0 h =
     [(on_duty_not_driving, 15, ''Pre-trip inspection'', current_location t),
      (on_duty_not_driving, 60, ''Pickup operations'', pickup_location t),
      (driving, (h - 1) * 60, ''Driving'', ''En route''),
      (on_duty_not_driving, 15, ''Post-trip inspection'', dropoff_location t)]"
  using assms by (simp add: day_plan_def driving_periods_plan_def Let_def min_def)

lemma day0_plan_middle:
  assumes "8 < h" "h \<le> 9"
  shows "day_plan t 0 h =
     [(on_duty_not_driving, 15, ''Pre-trip inspection'', current_location t),
      (on_duty_not_driving, 60, ''Pickup operations'', pickup_location t),
      (driving, 420, ''Driving'', ''En route''),
      (off_duty, 30, ''Meal break'', ''Rest area''),
      (on_duty_not_driving, 60, ''Dropoff operations'', dropoff_location t),
      (on_duty_not_driving, 15, ''Post-trip inspection'', dropoff_location t)]"
  using assms
  by (simp add: day_plan_def driving_periods_plan_def meal_break_plan_def Let_def min_def
        py_int_small)

lemma day0_plan_long:
  assumes "9 < h" "h < 11"
  shows "day_plan t 0 h =
     [(on_duty_not_driving, 15, ''Pre-trip inspection'', current_location t),
      (on_duty_not_driving, 60, ''Pickup operations'', pickup_location t),
      (driving, 420, ''Driving'', ''En route''),
      (off_duty, 30, ''Meal break'', ''Rest area''),
      (driving, (h - 9) * 60, ''Driving'', ''En route''),
      (on_duty_not_driving, 60, ''Dropoff operations'', dropoff_location t),
      (on_duty_not_driving, 15, ''Post-trip inspection'', dropoff_location t)]"
  using assms
  by (simp add: day_plan_def driving_periods_plan_def meal_break_plan_def Let_def min_def
        py_int_small)

lemma auto_row_times [simp]:
  "duration (auto_row i l s st m n loc) = minutes m"
  "end_or_zero (auto_row i l s st m n loc) = st + minutes m"
  by (simp_all add: auto_row_def duration_def end_or_zero_def)

lemmas row_eval =
  full_plan_eq minutes_def combine_def is_duty_def BREAK_REQUIREMENT_HOURS_def Let_def

lemma day0_rows_drive:
  assumes "0 < h" "h < 11"
  shows "sum_list (map duration (filter (\<lambda>r. end_time r \<noteq> None \<and> duty_status r = driving)
           (plan_rows_from i l (combine d 6) (full_plan t 0 h d)))) \<le> 39600"
proof -
  consider "h \<le> 8" | "8 < h" "h \<le> 9" | "9 < h" by linarith
  then show ?thesis
  proof cases
    case 1
    then show ?thesis using assms by (simp add: day0_plan_short row_eval)
  next
    case 2
    then show ?thesis using assms by (simp add: day0_plan_middle row_eval)
  next
    case 3
    then show ?thesis using assms by (simp add: day0_plan_long row_eval)
  qed
qed

lemma day0_rows_duty:
  assumes "0 < h" "h < 11"
  shows "sum_list (map duration
           (filter (\<lambda>r. end_time r \<noteq> None \<and> (duty_status r = driving \<or> duty_status r = on_duty_not_driving))
             (plan_rows_from i l (combine d 6) (full_plan t 0 h d)))) \<le> 216000"
proof -
  consider "h \<le> 8" | "8 < h" "h \<le> 9" | "9 < h" by linarith
  then show ?thesis
  proof cases
    case 1
    then show ?thesis using assms by (simp add: day0_plan_short row_eval)
  next
    case 2
    then show ?thesis using assms by (simp add: day0_plan_middle row_eval)
  next
    case 3
    then show ?thesis using assms by (simp add: day0_plan_long row_eval)
  qed
qed

lemma day0_rows_window:
  assumes "0 < h" "h < 11"
  shows "\<forall>a \<in> set (filter is_duty (plan_rows_from i l (combine d 6) (full_plan t 0 h d))).
         \<forall>b \<in> set (filter is_duty (plan_rows_from i l (combine d 6) (full_plan t 0 h d))).
           end_or_zero b - start_time a \<le> 50400"
proof -
  consider "h \<le> 8" | "8 < h" "h \<le> 9" | "9 < h" by linarith
  then show ?thesis
  proof cases
    case 1
    then show ?thesis using assms by (simp add: day0_plan_short row_eval)
  next
    case 2
    then show ?thesis using assms by (simp add: day0_plan_middle row_eval)
  next
    case 3
    then show ?thesis using assms by (simp add: day0_plan_long row_eval)
  qed
qed

lemma day0_rows_break:
  assumes "0 < h" "h < 11"
  shows "break_loop l (sort_key start_time (filter (\<lambda>r. duty_status r = driving)
           (plan_rows_from i l (combine d 6) (full_plan t 0 h d)))) 0 None = None"
proof -
  consider "h \<le> 8" | "8 < h" "h \<le> 9" | "9 < h" by linarith
  then show ?thesis
  proof cases
    case 1
    then show ?thesis using assms by (simp add: day0_plan_short row_eval)
  next
    case 2
    then show ?thesis using assms by (simp add: day0_plan_middle row_eval)
  next
    case 3
    then show ?thesis using assms by (simp add: day0_plan_long row_eval)
  qed
qed

lemma generated_eq:
  assumes "route t = Some rt"
  shows "generate_trip_eld_logs now db t = Inr (generated_db now db t, generated_logs now db t)"
    and "generated_db now db t = fst (trip_result now db t (estimated_duration_hours rt))"
    and "generated_logs now db t = snd (trip_result now db t (estimated_duration_hours rt))"
  by (simp_all add: generated_db_def generated_logs_def generate_trip_eld_logs_eq [OF assms]
        case_prod_beta)

text \<open>
  C2, amended. For a driver without prior logs (and a record table whose rows all belong
  to existing logs), a trip with a route of h hours yields max(1, floor(h/11) + 1) logs
  for every h. For 0 < h < 11 that is exactly one log, whose driving intervals sum to at
  most 11 hours and on which the detector reports no violation; for h = 25 it is three.
\<close>

theorem simulator_single_day:
  assumes "no_prior_logs db (trip_driver t)" "records_reference_logs db" "route t = Some rt"
  shows "let h = estimated_duration_hours rt;
             db' = generated_db now db t;
             logs = generated_logs now db t
         in generate_trip_eld_logs now db t = Inr (db', logs)
          \<and> int (length logs) = max 1 (\<lfloor>h / 11\<rfloor> + 1)
          \<and> (0 < h \<and> h < 11 \<longrightarrow>
                length logs = 1
              \<and> closed_time db' (hd logs) (\<lambda>s. s = driving) \<le> 11 * 3600
              \<and> snd (check_hos_violations now' db' (hd logs)) = [])
          \<and> (h = 25 \<longrightarrow> length logs = 3)"
proof -
  define h where "h = estimated_duration_hours rt"
  define sd where "sd = start_date now t"
  define l where "l = new_log db t sd"
  define D where "D = generate_daily_duty_records (with_log db l) l t 0 h"
  define R where "R = plan_rows_from (new_id (map rec_id (duty_status_record_table db))) l
                        (combine sd 6) (full_plan t 0 h sd)"
  note gen = generated_eq [OF assms(3), of now db, folded h_def]
  have len: "int (length (generated_logs now db t)) = max 1 (\<lfloor>h / 11\<rfloor> + 1)"
    by (simp add: gen length_trip_result)
  have l25: "length (generated_logs now db t) = 3" if "h = 25"
    using len that by simp
  have single: "length (generated_logs now db t) = 1
        \<and> closed_time (generated_db now db t) (hd (generated_logs now db t)) (\<lambda>s. s = driving) \<le> 11 * 3600
        \<and> snd (check_hos_violations now' (generated_db now db t) (hd (generated_logs now db t))) = []"
    if h: "0 < h" "h < 11"
  proof -
    have res: "trip_result now db t h = (D, [l])"
      unfolding D_def l_def sd_def using assms(1) h by (intro single_day_result) simp_all
    have view: "day_view D l R"
      unfolding D_def R_def l_def by (rule day_view_generated [OF assms(2)])
    have logs: "eld_log_table D = eld_log_table db @ [l]"
      by (simp add: D_def generate_daily_rows_from with_log_def)
    have prior: "no_prior_logs db (log_driver l)"
      using assms(1) by (simp add: l_def new_log_def)
    have drive: "sum_list (map duration (filter (\<lambda>r. end_time r \<noteq> None \<and> duty_status r = driving) R)) \<le> 39600"
      unfolding R_def using h by (rule day0_rows_drive)
    have "snd (check_hos_violations now' D l) = []"
      using view logs prior drive
    proof (rule single_day_no_violations)
      show "\<forall>a \<in> set (filter is_duty R). \<forall>b \<in> set (filter is_duty R).
              end_or_zero b - start_time a \<le> 50400"
        unfolding R_def using h by (rule day0_rows_window)
      show "break_loop l (sort_key start_time (filter (\<lambda>r. duty_status r = driving) R)) 0 None = None"
        unfolding R_def using h by (rule day0_rows_break)
      show "sum_list (map duration
              (filter (\<lambda>r. end_time r \<noteq> None \<and> (duty_status r = driving \<or> duty_status r = on_duty_not_driving)) R))
            \<le> 216000"
        unfolding R_def using h by (rule day0_rows_duty)
    qed
    moreover have "closed_time D l (\<lambda>s. s = driving) \<le> 11 * 3600"
      using drive by (simp add: view_closed_time [OF view])
    ultimately show ?thesis by (simp add: gen res)
  qed
  show ?thesis
    unfolding Let_def h_def [symmetric]
    by (intro conjI impI; (rule gen(1) len | (rule l25, assumption) | (use single in simp)))
qed

lemmas generate_eval =
  generated_logs_def generated_db_def generate_trip_eld_logs_def trip_day_step_def
  get_or_create_eld_log_def

text \<open>Witness for C2: a trip of 5 hours on the empty database.\<close>

theorem simulator_single_day_witness:
  "no_prior_logs empty_db (trip_driver (example_trip 5))
   \<and> records_reference_logs empty_db
   \<and> route (example_trip 5) = Some \<lparr>estimated_duration_hours = 5\<rparr>
   \<and> (0::rat) < 5 \<and> (5::rat) < 11
   \<and> length (generated_logs 0 empty_db (example_trip 5)) = 1
   \<and> closed_time (generated_db 0 empty_db (example_trip 5))
         (hd (generated_logs 0 empty_db (example_trip 5))) (\<lambda>s. s = driving) = 14400
   \<and> snd (check_hos_violations 0 (generated_db 0 empty_db (example_trip 5))
             (hd (generated_logs 0 empty_db (example_trip 5)))) = []"
  using simulator_single_day [where db = empty_db and t = "example_trip 5"
          and rt = "\<lparr>estimated_duration_hours = 5\<rparr>" and now = 0 and now' = 0]
  by (simp add: generate_eval simulator_defs model_defs example_defs no_prior_logs_def
        records_reference_logs_def closed_time_def duration_def Let_def)

lemma upt_two_three: "[0..<2] = [0, 1]" "[0..<3] = [0, 1, 2]"
  by (simp_all add: upt_rec)

text \<open>
  C2 as stated fails at the upper end of its interval: a trip of exactly 11 hours yields
  two logs, not one.
\<close>

theorem simulator_eleven_hours_counterexample:
  "length (generated_logs 0 empty_db (example_trip 11)) = 2"
  by (simp add: generate_eval simulator_defs model_defs example_defs Let_def upt_two_three)

text \<open>
  C3 as stated fails: a trip of 22 hours yields three logs, not two.
\<close>

theorem simulator_twenty_two_hours_counterexample:
  "length (generated_logs 0 empty_db (example_trip 22)) = 3"
  by (simp add: generate_eval simulator_defs model_defs example_defs Let_def upt_two_three)

section \<open>The trip schedule simulator: a trip of 22 hours\<close>

lemma new_id_snoc:
  "new_id (xs @ [new_id xs]) = Suc (new_id xs)"
  "new_id (xs @ [new_id xs, Suc (new_id xs)]) = Suc (Suc (new_id xs))"
  by (simp_all add: new_id_simps)

lemma new_log_simps [simp]:
  "log_id (new_log db t d) = new_id (map log_id (eld_log_table db))"
  "log_driver (new_log db t d) = trip_driver t"
  "log_date (new_log db t d) = d"
  by (simp_all add: new_log_def)

lemma order_by_end_time_desc_in_set:
  "qs_first (order_by_end_time_desc nf xs) = Some x \<Longrightarrow> x \<in> set xs"
  by (drule qs_first_in_set) (auto simp: order_by_end_time_desc_def Let_def split: if_splits)

lemma check_rest_view:
  assumes prev: "eld_log_get D (log_driver l) (log_date l - 1) = Some p"
    and vp: "day_view D p Rp" and v: "day_view D l R"
    and gap: "\<forall>a \<in> set (filter is_duty Rp). \<forall>b \<in> set (filter is_duty R).
                36000 \<le> start_time b - end_or_zero a"
  shows "check_daily_rest_requirement D l = None"
proof -
  let ?lp = "qs_first (order_by_end_time_desc (desc_nulls_first D) (sort_key start_time (filter is_duty Rp)))"
  let ?fc = "qs_first (sort_key start_time (filter is_duty R))"
  have "\<not> (start_time b - e) / 3600 < 10"
    if "?lp = Some a" "?fc = Some b" "end_time a = Some e" for a b e
  proof -
    have "a \<in> set (filter is_duty Rp)"
      using order_by_end_time_desc_in_set [OF that(1)] by simp
    moreover have "b \<in> set (filter is_duty R)"
      using qs_first_in_set [OF that(2)] by simp
    ultimately have "36000 \<le> start_time b - end_or_zero a" using gap by blast
    then show ?thesis using that(3) by (simp add: end_or_zero_def not_less)
  qed
  then show ?thesis
    by (simp add: check_daily_rest_requirement_def prev Let_def view_records [OF vp]
          view_records [OF v] DAILY_OFF_DUTY_MINIMUM_def split: option.splits)
qed

lemma day_no_violations:
  assumes view: "day_view D l R"
    and drive: "sum_list (map duration (filter (\<lambda>r. end_time r \<noteq> None \<and> duty_status r = driving) R)) \<le> 39600"
    and window: "\<forall>a \<in> set (filter is_duty R). \<forall>b \<in> set (filter is_duty R).
                   end_or_zero b - start_time a \<le> 50400"
    and break: "break_loop l (sort_key start_time (filter (\<lambda>r. duty_status r = driving) R)) 0 None = None"
    and cycle: "get_current_cycle_hours now D (log_driver l) (Some (log_date l)) \<le> 60"
    and rest: "check_daily_rest_requirement D l = None"
  shows "snd (check_hos_violations now D l) = []"
proof -
  have c1: "check_daily_driving_limit now D l = None"
    using view drive by (rule check_driving_view)
  have c2: "check_daily_duty_limit D l = None"
    using view window by (rule check_duty_view)
  have c3: "check_cycle_limit now D l = None" using cycle by (rule check_cycle_bound)
  have c4: "check_break_requirement D l = None"
    using break by (simp add: check_break_view [OF view])
  show ?thesis using c1 c2 c3 c4 rest by (rule no_violations)
qed

lemma view_timeline:
  assumes "day_view D l R"
  shows "day_timeline D l =
     map (\<lambda>r. (duty_status r, (start_time r - combine (log_date l) 0) / 3600,
                map_option (\<lambda>e. (e - combine (log_date l) 0) / 3600) (end_time r)))
         (sort_key start_time R)"
  using view_records [OF assms, of "\<lambda>r. True"] by (simp add: day_timeline_def)

lemma view_duty_hours:
  assumes "day_view D l R"
  shows "duty_hours D l = sum_list (map duration (filter (\<lambda>r. end_time r \<noteq> None \<and> is_duty r) R)) / 3600"
  by (simp add: duty_hours_def view_closed_time [OF assms] is_duty_def)

lemma plans_22:
  "day_plan t 0 22 =
     [(on_duty_not_driving, 15, ''Pre-trip inspection'', current_location t),
      (on_duty_not_driving, 60, ''Pickup operations'', pickup_location t),
      (driving, 420, ''Driving'', ''En route''),
      (off_duty, 30, ''Meal break'', ''Rest area''),
      (driving, 180, ''Driving'', ''En route''),
      (on_duty_not_driving, 15, ''Post-trip inspection'', dropoff_location t)]"
  "day_plan t (Suc 0) 22 =
     [(on_duty_not_driving, 15, ''Pre-trip inspection'', current_location t),
      (driving, 480, ''Driving'', ''En route''),
      (off_duty, 30, ''Meal break'', ''Rest area''),
      (driving, 180, ''Driving'', ''En route''),
      (on_duty_not_driving, 15, ''Post-trip inspection'', dropoff_location t)]"
  "day_plan t 2 22 =
     [(on_duty_not_driving, 15, ''Pre-trip inspection'', current_location t),
      (on_duty_not_driving, 15, ''Post-trip inspection'', dropoff_location t)]"
  by (simp_all add: day_plan_def driving_periods_plan_def meal_break_plan_def Let_def py_int_def)

lemma tables_with_log [simp]:
  "eld_log_table (with_log db l) = eld_log_table db @ [l]"
  "duty_status_record_table (with_log db l) = duty_status_record_table db"
  by (simp_all add: with_log_def)

lemma eld_log_table_generate_daily [simp]:
  "eld_log_table (generate_daily_duty_records db l t day h) = eld_log_table db"
  by (simp add: generate_daily_rows_from)

lemma plan_rows_from_log: "r \<in> set (plan_rows_from i l st ps) \<Longrightarrow> rec_eld_log r = log_id l"
  by (induction ps arbitrary: i st) auto

lemma records_reference_logs_generated:
  assumes "records_reference_logs db"
  shows "records_reference_logs
           (generate_daily_duty_records (with_log db (new_log db t d)) (new_log db t d) t day h)"
proof -
  have old: "\<exists>l \<in> set (eld_log_table db). log_id l = rec_eld_log r"
    if "r \<in> set (duty_status_record_table db)" for r
    using assms that by (simp add: records_reference_logs_def list_all_iff list_ex_iff)
  show ?thesis
    unfolding records_reference_logs_def list_all_iff list_ex_iff
    by (auto simp: generate_daily_rows_from dest: old plan_rows_from_log)
qed

lemma day_view_with_other:
  assumes "day_view D l R" "log_id l' \<noteq> log_id l"
  shows "day_view (generate_daily_duty_records (with_log D l') l' t day h) l R"
  using assms by (simp add: day_view_def generate_daily_rows_from plan_rows_from_other)

lemma rows_22_day0:
  shows "sum_list (map duration (filter (\<lambda>r. end_time r \<noteq> None \<and> duty_status r = driving) (day_rows i l t 0 22 d))) = 36000"
    and "\<forall>a \<in> set (filter is_duty (day_rows i l t 0 22 d)). \<forall>b \<in> set (filter is_duty (day_rows i l t 0 22 d)). end_or_zero b - start_time a \<le> 50400"
    and "break_loop l (sort_key start_time (filter (\<lambda>r. duty_status r = driving) (day_rows i l t 0 22 d))) 0 None = None"
    and "sum_list (map duration (filter (\<lambda>r. end_time r \<noteq> None \<and> is_duty r) (day_rows i l t 0 22 d))) = 41400"
    and "map (\<lambda>r. (duty_status r, (start_time r - combine d 0) / 3600,
                    map_option (\<lambda>e. (e - combine d 0) / 3600) (end_time r))) (sort_key start_time (day_rows i l t 0 22 d))
         = [(on_duty_not_driving, 6, Some (25 / 4)), (on_duty_not_driving, 25 / 4, Some (29 / 4)),
            (driving, 29 / 4, Some (57 / 4)), (off_duty, 57 / 4, Some (59 / 4)),
            (driving, 59 / 4, Some (71 / 4)), (on_duty_not_driving, 71 / 4, Some 18),
            (off_duty, 18, Some 24)]"
  by (simp_all add: day_rows_def plans_22 row_eval)

lemma rows_22_day1:
  shows "sum_list (map duration (filter (\<lambda>r. end_time r \<noteq> None \<and> duty_status r = driving) (day_rows i l t (Suc 0) 22 d))) = 39600"
    and "\<forall>a \<in> set (filter is_duty (day_rows i l t (Suc 0) 22 d)). \<forall>b \<in> set (filter is_duty (day_rows i l t (Suc 0) 22 d)). end_or_zero b - start_time a \<le> 50400"
    and "break_loop l (sort_key start_time (filter (\<lambda>r. duty_status r = driving) (day_rows i l t (Suc 0) 22 d))) 0 None = None"
    and "sum_list (map duration (filter (\<lambda>r. end_time r \<noteq> None \<and> is_duty r) (day_rows i l t (Suc 0) 22 d))) = 41400"
    and "map (\<lambda>r. (duty_status r, (start_time r - combine d 0) / 3600,
                    map_option (\<lambda>e. (e - combine d 0) / 3600) (end_time r))) (sort_key start_time (day_rows i l t (Suc 0) 22 d))
         = [(on_duty_not_driving, 6, Some (25 / 4)), (driving, 25 / 4, Some (57 / 4)),
            (off_duty, 57 / 4, Some (59 / 4)), (driving, 59 / 4, Some (71 / 4)),
            (on_duty_not_driving, 71 / 4, Some 18), (off_duty, 18, Some 24)]"
  by (simp_all add: day_rows_def plans_22 row_eval)

lemma rows_22_day2:
  shows "sum_list (map duration (filter (\<lambda>r. end_time r \<noteq> None \<and> duty_status r = driving) (day_rows i l t 2 22 d))) = 0"
    and "\<forall>a \<in> set (filter is_duty (day_rows i l t 2 22 d)). \<forall>b \<in> set (filter is_duty (day_rows i l t 2 22 d)). end_or_zero b - start_time a \<le> 50400"
    and "break_loop l (sort_key start_time (filter (\<lambda>r. duty_status r = driving) (day_rows i l t 2 22 d))) 0 None = None"
    and "sum_list (map duration (filter (\<lambda>r. end_time r \<noteq> None \<and> is_duty r) (day_rows i l t 2 22 d))) = 1800"
    and "map (\<lambda>r. (duty_status r, (start_time r - combine d 0) / 3600,
                    map_option (\<lambda>e. (e - combine d 0) / 3600) (end_time r))) (sort_key start_time (day_rows i l t 2 22 d))
         = [(on_duty_not_driving, 6, Some (25 / 4)), (on_duty_not_driving, 25 / 4, Some (13 / 2)),
            (off_duty, 13 / 2, Some 24)]"
  by (simp_all add: day_rows_def plans_22 row_eval)

lemma rows_22_gaps:
  "\<forall>a \<in> set (filter is_duty (day_rows i l t 0 22 d)).
   \<forall>b \<in> set (filter is_duty (day_rows j l' t (Suc 0) 22 (d + 1))).
     36000 \<le> start_time b - end_or_zero a"
  "\<forall>a \<in> set (filter is_duty (day_rows i l t (Suc 0) 22 (d + 1))).
   \<forall>b \<in> set (filter is_duty (day_rows j l' t 2 22 (d + 2))).
     36000 \<le> start_time b - end_or_zero a"
  by (simp_all add: day_rows_def plans_22 row_eval)

lemma day_view_generated_rows:
  assumes "records_reference_logs db"
  shows "day_view (generate_daily_duty_records (with_log db (new_log db t d)) (new_log db t d) t day h)
           (new_log db t d)
           (day_rows (new_id (map rec_id (duty_status_record_table db))) (new_log db t d) t day h d)"
  unfolding day_rows_def by (rule day_view_generated [OF assms])

text \<open>
  C3, amended. For a driver without prior logs (either cycle type), a trip of 22 hours
  yields three logs on consecutive dates, not two. Day 0 has a 7-hour driving block
  (07:15--14:15), a 30-minute off-duty break and a second driving block of 3 hours; day 1
  has an 8-hour driving block (06:15--14:15), the break and a 3-hour block; day 2 has
  no driving. The detector reports no violation on any of the days.
\<close>

theorem simulator_twenty_two_hours:
  assumes "no_prior_logs db (trip_driver t)" "records_reference_logs db" "route t = Some rt"
    "estimated_duration_hours rt = 22"
  shows "let db' = generated_db now db t; logs = generated_logs now db t; sd = start_date now t
         in generate_trip_eld_logs now db t = Inr (db', logs)
          \<and> map log_date logs = [sd, sd + 1, sd + 2]
          \<and> day_timeline db' (logs ! 0)
              = [(on_duty_not_driving, 6, Some (25 / 4)), (on_duty_not_driving, 25 / 4, Some (29 / 4)),
                 (driving, 29 / 4, Some (57 / 4)), (off_duty, 57 / 4, Some (59 / 4)),
                 (driving, 59 / 4, Some (71 / 4)), (on_duty_not_driving, 71 / 4, Some 18),
                 (off_duty, 18, Some 24)]
          \<and> day_timeline db' (logs ! 1)
              = [(on_duty_not_driving, 6, Some (25 / 4)), (driving, 25 / 4, Some (57 / 4)),
                 (off_duty, 57 / 4, Some (59 / 4)), (driving, 59 / 4, Some (71 / 4)),
                 (on_duty_not_driving, 71 / 4, Some 18), (off_duty, 18, Some 24)]
          \<and> filter (\<lambda>x. fst x = driving) (day_timeline db' (logs ! 2)) = []
          \<and> snd (check_hos_violations now' db' (logs ! 0)) = []
          \<and> snd (check_hos_violations now' db' (logs ! 1)) = []
          \<and> snd (check_hos_violations now' db' (logs ! 2)) = []"
proof -
  define sd where "sd = start_date now t"
  define l0 where "l0 = new_log db t sd"
  define D0 where "D0 = generate_daily_duty_records (with_log db l0) l0 t 0 22"
  define l1 where "l1 = new_log D0 t (sd + 1)"
  define D1 where "D1 = generate_daily_duty_records (with_log D0 l1) l1 t (Suc 0) 22"
  define l2 where "l2 = new_log D1 t (sd + 2)"
  define D2 where "D2 = generate_daily_duty_records (with_log D1 l2) l2 t 2 22"
  define R0 where "R0 = day_rows (new_id (map rec_id (duty_status_record_table db))) l0 t 0 22 sd"
  define R1 where "R1 = day_rows (new_id (map rec_id (duty_status_record_table D0))) l1 t (Suc 0) 22 (sd + 1)"
  define R2 where "R2 = day_rows (new_id (map rec_id (duty_status_record_table D1))) l2 t 2 22 (sd + 2)"
  note prior = assms(1)
  have drv [simp]: "log_driver l0 = trip_driver t" "log_driver l1 = trip_driver t"
      "log_driver l2 = trip_driver t"
    by (simp_all add: l0_def l1_def l2_def)
  have dates [simp]: "log_date l0 = sd" "log_date l1 = sd + 1" "log_date l2 = sd + 2"
    by (simp_all add: l0_def l1_def l2_def)
  have logs0: "eld_log_table D0 = eld_log_table db @ [l0]" by (simp add: D0_def)
  have logs1: "eld_log_table D1 = eld_log_table db @ [l0, l1]" by (simp add: D1_def logs0)
  have logs2: "eld_log_table D2 = eld_log_table db @ [l0, l1, l2]" by (simp add: D2_def logs1)
  have ids: "log_id l1 = Suc (log_id l0)" "log_id l2 = Suc (Suc (log_id l0))"
    by (simp_all add: l1_def l2_def l0_def logs0 logs1 new_id_snoc)

  have get0: "eld_log_get db (trip_driver t) (sd + int 0) = None"
    by (rule eld_log_get_no_prior [OF prior])
  have get1: "eld_log_get D0 (trip_driver t) (sd + int (Suc 0)) = None"
    by (simp add: eld_log_get_def logs0 no_prior_filter [OF prior] qs_first_def)
  have get2: "eld_log_get D1 (trip_driver t) (sd + int 2) = None"
    by (simp add: eld_log_get_def logs1 no_prior_filter [OF prior] qs_first_def)
  have s0: "trip_day_step t sd 22 0 (db, []) = (D0, [l0])"
    using trip_day_step_created [OF get0, of 22 "[]"] by (simp add: D0_def l0_def)
  have s1: "trip_day_step t sd 22 (Suc 0) (D0, [l0]) = (D1, [l0, l1])"
    using trip_day_step_created [OF get1, of 22 "[l0]"] by (simp add: D1_def l1_def)
  have s2: "trip_day_step t sd 22 2 (D1, [l0, l1]) = (D2, [l0, l1, l2])"
    using trip_day_step_created [OF get2, of 22 "[l0, l1]"] by (simp add: D2_def l2_def)
  have res: "trip_result now db t 22 = (D2, [l0, l1, l2])"
    by (simp add: trip_result_def py_int_def upt_two_three sd_def [symmetric] s0 s1 s2)
  have gdb: "generated_db now db t = D2"
    using generated_eq(2) [OF assms(3), of now db] by (simp add: assms(4) res)
  have glogs: "generated_logs now db t = [l0, l1, l2]"
    using generated_eq(3) [OF assms(3), of now db] by (simp add: assms(4) res)
  have gen: "generate_trip_eld_logs now db t = Inr (D2, [l0, l1, l2])"
    using generated_eq(1) [OF assms(3), of now db] by (simp add: gdb glogs)

  have ref1: "records_reference_logs D0"
    unfolding D0_def l0_def by (rule records_reference_logs_generated [OF assms(2)])
  have ref2: "records_reference_logs D1"
    unfolding D1_def l1_def by (rule records_reference_logs_generated [OF ref1])
  have v0_D0: "day_view D0 l0 R0"
    unfolding D0_def l0_def R0_def by (rule day_view_generated_rows [OF assms(2)])
  have v1_D1: "day_view D1 l1 R1"
    unfolding D1_def l1_def R1_def by (rule day_view_generated_rows [OF ref1])
  have v2: "day_view D2 l2 R2"
    unfolding D2_def l2_def R2_def by (rule day_view_generated_rows [OF ref2])
  have v0_D1: "day_view D1 l0 R0"
    unfolding D1_def using v0_D0 by (rule day_view_with_other) (simp add: ids)
  have v0: "day_view D2 l0 R0"
    unfolding D2_def using v0_D1 by (rule day_view_with_other) (simp add: ids)
  have v1: "day_view D2 l1 R1"
    unfolding D2_def using v1_D1 by (rule day_view_with_other) (simp add: ids)

  have t0: "day_timeline D2 l0
              = [(on_duty_not_driving, 6, Some (25 / 4)), (on_duty_not_driving, 25 / 4, Some (29 / 4)),
                 (driving, 29 / 4, Some (57 / 4)), (off_duty, 57 / 4, Some (59 / 4)),
                 (driving, 59 / 4, Some (71 / 4)), (on_duty_not_driving, 71 / 4, Some 18),
                 (off_duty, 18, Some 24)]"
    unfolding view_timeline [OF v0] dates R0_def by (rule rows_22_day0(5))
  have t1: "day_timeline D2 l1
              = [(on_duty_not_driving, 6, Some (25 / 4)), (driving, 25 / 4, Some (57 / 4)),
                 (off_duty, 57 / 4, Some (59 / 4)), (driving, 59 / 4, Some (71 / 4)),
                 (on_duty_not_driving, 71 / 4, Some 18), (off_duty, 18, Some 24)]"
    unfolding view_timeline [OF v1] dates R1_def by (rule rows_22_day1(5))
  have t2: "day_timeline D2 l2
              = [(on_duty_not_driving, 6, Some (25 / 4)), (on_duty_not_driving, 25 / 4, Some (13 / 2)),
                 (off_duty, 13 / 2, Some 24)]"
    unfolding view_timeline [OF v2] dates R2_def by (rule rows_22_day2(5))

  have h0: "duty_hours D2 l0 = 23 / 2"
    unfolding view_duty_hours [OF v0] R0_def rows_22_day0(4) by simp
  have h1: "duty_hours D2 l1 = 23 / 2"
    unfolding view_duty_hours [OF v1] R1_def rows_22_day1(4) by simp
  have h2: "duty_hours D2 l2 = 1 / 2"
    unfolding view_duty_hours [OF v2] R2_def rows_22_day2(4) by simp
  have cyc0: "get_current_cycle_hours now' D2 (log_driver l0) (Some (log_date l0)) \<le> 60"
    by (simp add: get_current_cycle_hours_eq logs2 no_prior_filter [OF prior] cycle_window_def h0)
  have cyc1: "get_current_cycle_hours now' D2 (log_driver l1) (Some (log_date l1)) \<le> 60"
    by (simp add: get_current_cycle_hours_eq logs2 no_prior_filter [OF prior] cycle_window_def h0 h1)
  have cyc2: "get_current_cycle_hours now' D2 (log_driver l2) (Some (log_date l2)) \<le> 60"
    by (simp add: get_current_cycle_hours_eq logs2 no_prior_filter [OF prior] cycle_window_def
          h0 h1 h2)

  have "eld_log_get D2 (log_driver l0) (log_date l0 - 1) = None"
    by (simp add: eld_log_get_def logs2 no_prior_filter [OF prior] qs_first_def)
  then have rest0: "check_daily_rest_requirement D2 l0 = None" by (rule check_rest_no_previous)
  have "eld_log_get D2 (log_driver l1) (log_date l1 - 1) = Some l0"
    by (simp add: eld_log_get_def logs2 no_prior_filter [OF prior] qs_first_def)
  then have rest1: "check_daily_rest_requirement D2 l1 = None"
    using v0 v1 unfolding R0_def R1_def by (rule check_rest_view) (rule rows_22_gaps(1))
  have "eld_log_get D2 (log_driver l2) (log_date l2 - 1) = Some l1"
    by (simp add: eld_log_get_def logs2 no_prior_filter [OF prior] qs_first_def)
  then have rest2: "check_daily_rest_requirement D2 l2 = None"
    using v1 v2 unfolding R1_def R2_def
    by (rule check_rest_view) (use rows_22_gaps(2) [of _ _ t sd] in \<open>simp add: add.assoc\<close>)

  have c0: "snd (check_hos_violations now' D2 l0) = []"
  proof (rule day_no_violations [OF v0 _ _ _ cyc0 rest0])
    show "sum_list (map duration (filter (\<lambda>r. end_time r \<noteq> None \<and> duty_status r = driving) R0)) \<le> 39600"
      unfolding R0_def rows_22_day0(1) by simp
    show "\<forall>a \<in> set (filter is_duty R0). \<forall>b \<in> set (filter is_duty R0).
            end_or_zero b - start_time a \<le> 50400"
      unfolding R0_def by (rule rows_22_day0(2))
    show "break_loop l0 (sort_key start_time (filter (\<lambda>r. duty_status r = driving) R0)) 0 None = None"
      unfolding R0_def by (rule rows_22_day0(3))
  qed
  have c1: "snd (check_hos_violations now' D2 l1) = []"
  proof (rule day_no_violations [OF v1 _ _ _ cyc1 rest1])
    show "sum_list (map duration (filter (\<lambda>r. end_time r \<noteq> None \<and> duty_status r = driving) R1)) \<le> 39600"
      unfolding R1_def rows_22_day1(1) by simp
    show "\<forall>a \<in> set (filter is_duty R1). \<forall>b \<in> set (filter is_duty R1).
            end_or_zero b - start_time a \<le> 50400"
      unfolding R1_def by (rule rows_22_day1(2))
    show "break_loop l1 (sort_key start_time (filter (\<lambda>r. duty_status r = driving) R1)) 0 None = None"
      unfolding R1_def by (rule rows_22_day1(3))
  qed
  have c2: "snd (check_hos_violations now' D2 l2) = []"
  proof (rule day_no_violations [OF v2 _ _ _ cyc2 rest2])
    show "sum_list (map duration (filter (\<lambda>r. end_time r \<noteq> None \<and> duty_status r = driving) R2)) \<le> 39600"
      unfolding R2_def rows_22_day2(1) by simp
    show "\<forall>a \<in> set (filter is_duty R2). \<forall>b \<in> set (filter is_duty R2).
            end_or_zero b - start_time a \<le> 50400"
      unfolding R2_def by (rule rows_22_day2(2))
    show "break_loop l2 (sort_key start_time (filter (\<lambda>r. duty_status r = driving) R2)) 0 None = None"
      unfolding R2_def by (rule rows_22_day2(3))
  qed
  show ?thesis
    unfolding Let_def gdb glogs sd_def [symmetric]
    by (simp add: gen t0 t1 t2 c0 c1 c2)
qed

text \<open>Witness for C3: the 22-hour trip on the empty database, read at day 1.\<close>

theorem simulator_twenty_two_hours_witness:
  "no_prior_logs empty_db (trip_driver (example_trip 22))
   \<and> records_reference_logs empty_db
   \<and> route (example_trip 22) = Some \<lparr>estimated_duration_hours = 22\<rparr>
   \<and> cycle_type (trip_driver (example_trip 22)) = cycle_70_8
   \<and> map log_date (generated_logs 0 empty_db (example_trip 22)) = [0, 1, 2]
   \<and> day_timeline (generated_db 0 empty_db (example_trip 22))
         (generated_logs 0 empty_db (example_trip 22) ! 1)
       = [(on_duty_not_driving, 6, Some (25 / 4)), (driving, 25 / 4, Some (57 / 4)),
          (off_duty, 57 / 4, Some (59 / 4)), (driving, 59 / 4, Some (71 / 4)),
          (on_duty_not_driving, 71 / 4, Some 18), (off_duty, 18, Some 24)]
   \<and> snd (check_hos_violations 0 (generated_db 0 empty_db (example_trip 22))
             (generated_logs 0 empty_db (example_trip 22) ! 1)) = []"
  using simulator_twenty_two_hours [where db = empty_db and t = "example_trip 22"
          and rt = "\<lparr>estimated_duration_hours = 22\<rparr>" and now = 0 and now' = 0]
  by (simp add: example_defs no_prior_logs_def records_reference_logs_def start_date_def
        date_of_def Let_def)

end
